theory Spec2Isabelle
  imports Main "HOL-Library.Multiset" "HOL-Library.List_Lexorder"
    "HOL-Library.Product_Lexorder"
begin

section \<open>Strings of the generator\<close>

text \<open>
  A Go string is modelled as the list of Unicode code points that \<^verbatim>\<open>for _, r := range s\<close>
  yields on a valid UTF-8 string, so that \<^verbatim>\<open>t += string(r)\<close> appends one element and
  \<^verbatim>\<open>t == "_"\<close> compares with a one-element list.  String literals of the source are
  written \<open>str ''...''\<close>; the double quote is code point 34, the tab 9, the newline 10.
\<close>

type_synonym rune = nat
type_synonym gostring = "rune list"

definition str :: "string \<Rightarrow> gostring" where
  "str cs = map of_char cs"

definition quoteMark :: gostring where
  "quoteMark = [34]"

text \<open>
  The character tables of Go's \<^verbatim>\<open>unicode\<close> package are not part of the repository.
  On ASCII the predicates are fixed by the language; beyond ASCII the tables are taken as
  a parameter, so every theorem holds for whatever the library's tables say.
\<close>

record unicode =
  letterTab :: "rune \<Rightarrow> bool"
  digitTab :: "rune \<Rightarrow> bool"
  lowerTab :: "rune \<Rightarrow> rune"

definition IsLetter :: "unicode \<Rightarrow> rune \<Rightarrow> bool" where
  "IsLetter U r =
     (if r < 128 then (65 \<le> r \<and> r \<le> 90) \<or> (97 \<le> r \<and> r \<le> 122) else letterTab U r)"

definition IsDigit :: "unicode \<Rightarrow> rune \<Rightarrow> bool" where
  "IsDigit U r = (if r < 128 then 48 \<le> r \<and> r \<le> 57 else digitTab U r)"

text \<open>\<^verbatim>\<open>strings.ToLower\<close>: every rune is replaced by its lower-case form.\<close>

definition ToLowerRune :: "unicode \<Rightarrow> rune \<Rightarrow> rune" where
  "ToLowerRune U r =
     (if r < 128 then (if 65 \<le> r \<and> r \<le> 90 then r + 32 else r) else lowerTab U r)"

definition ToLower :: "unicode \<Rightarrow> gostring \<Rightarrow> gostring" where
  "ToLower U s = map (ToLowerRune U) s"

text \<open>A table set that knows no letters or digits beyond ASCII, for evaluation.\<close>

definition asciiOnly :: unicode where
  "asciiOnly = \<lparr> letterTab = (\<lambda>r. False), digitTab = (\<lambda>r. False), lowerTab = (\<lambda>r. r) \<rparr>"

text \<open>\<^verbatim>\<open>strings.Join\<close>.\<close>

fun Join :: "gostring list \<Rightarrow> gostring \<Rightarrow> gostring" where
  "Join [] sep = []"
| "Join [a] sep = a"
| "Join (a # b # rest) sep = a @ sep @ Join (b # rest) sep"

text \<open>\<^verbatim>\<open>strings.TrimSuffix\<close>.\<close>

definition TrimSuffix :: "gostring \<Rightarrow> gostring \<Rightarrow> gostring" where
  "TrimSuffix s suffix =
     (if length suffix \<le> length s \<and> drop (length s - length suffix) s = suffix
      then take (length s - length suffix) s else s)"

text \<open>\<^verbatim>\<open>strings.Split(s, " ")\<close>: the pieces between the spaces (code point 32).\<close>

fun SplitSpace :: "gostring \<Rightarrow> gostring list" where
  "SplitSpace [] = [[]]"
| "SplitSpace (c # cs) =
     (if c = 32 then [] # SplitSpace cs
      else (case SplitSpace cs of [] \<Rightarrow> [[c]] | w # ws \<Rightarrow> (c # w) # ws))"

text \<open>
  \<^verbatim>\<open>strings.Replace(s, "...", "[]", n)\<close>: the first \<open>n\<close> non-overlapping runs of three
  dots (code point 46) are replaced, all of them when \<open>n\<close> is negative.
\<close>

fun ReplaceEllipsis :: "int \<Rightarrow> gostring \<Rightarrow> gostring" where
  "ReplaceEllipsis n (a # b # c # rest) =
     (if n \<noteq> 0 \<and> a = 46 \<and> b = 46 \<and> c = 46
      then str ''[]'' @ ReplaceEllipsis (n - 1) rest
      else a # ReplaceEllipsis n (b # c # rest))"
| "ReplaceEllipsis n s = s"

text \<open>
  \<^verbatim>\<open>strconv.Itoa\<close> on the non-negative numbers the generator prints (loop indices and
  the alias counter).
\<close>

fun Itoa :: "nat \<Rightarrow> gostring" where
  "Itoa n = (if n < 10 then [48 + n] else Itoa (n div 10) @ [48 + n mod 10])"

declare Itoa.simps [simp del]

text \<open>
  \<^verbatim>\<open>path.Base\<close>: the last element of a slash-separated path; trailing slashes (code
  point 47) are dropped first, the empty path gives \<^verbatim>\<open>"."\<close> and a path of slashes only
  gives \<^verbatim>\<open>"/"\<close>.
\<close>

definition Base :: "gostring \<Rightarrow> gostring" where
  "Base path =
     (if path = [] then str ''.''
      else
        let stripped = rev (dropWhile (\<lambda>c. c = 47) (rev path));
            elem = rev (takeWhile (\<lambda>c. c \<noteq> 47) (rev stripped))
        in if elem = [] then str ''/'' else elem)"

text \<open>\<^verbatim>\<open>token.Lookup(s).IsKeyword()\<close>: the twenty-five keywords of Go.\<close>

definition goKeywords :: "gostring list" where
  "goKeywords = map str
     [''break'', ''case'', ''chan'', ''const'', ''continue'', ''default'', ''defer'', ''else'',
      ''fallthrough'', ''for'', ''func'', ''go'', ''goto'', ''if'', ''import'', ''interface'',
      ''map'', ''package'', ''range'', ''return'', ''select'', ''struct'', ''switch'', ''type'',
      ''var'']"

definition IsKeyword :: "gostring \<Rightarrow> bool" where
  "IsKeyword s = (s \<in> set goKeywords)"

text \<open>Printing a boolean with \<^verbatim>\<open>%v\<close>.\<close>

definition boolStr :: "bool \<Rightarrow> gostring" where
  "boolStr b = (if b then str ''true'' else str ''false'')"

section \<open>The interface model\<close>

text \<open>
  The package \<^verbatim>\<open>model\<close> is not among the sources.  Its structs are transcribed as far as
  the generator reads them; a type reference is a value of the type parameter \<open>'ty\<close>, and
  its method \<^verbatim>\<open>Type.String(packageMap, pkgOverride)\<close> is the parameter \<open>tstr\<close> of the
  functions that print types.  The result of \<^verbatim>\<open>Package.Imports()\<close> is the field
  \<open>Imports\<close>.
\<close>

record 'ty Parameter =
  ParamName :: gostring
  ParamType :: 'ty

record 'ty Method =
  MethodName :: gostring
  In :: "'ty Parameter list"
  Out :: "'ty Parameter list"
  Variadic :: "'ty Parameter option"

record 'ty Interface =
  IfaceName :: gostring
  Methods :: "'ty Method list"

record 'ty Package =
  PkgName :: gostring
  Interfaces :: "'ty Interface list"
  DotImports :: "gostring list"
  Imports :: "gostring set"

type_synonym 'ty typeString = "'ty \<Rightarrow> (gostring \<rightharpoonup> gostring) \<Rightarrow> gostring \<Rightarrow> gostring"

section \<open>Errors\<close>

text \<open>
  The panics of the modelled functions: the run-time panic of an index out of range, and
  the \<^verbatim>\<open>panic(fmt.Errorf(...))\<close> of \<^verbatim>\<open>Output\<close> with its message.
\<close>

datatype error = IndexOutOfRange | FormatFailed gostring

fun foldE :: "('s \<Rightarrow> 'a \<Rightarrow> error + 's) \<Rightarrow> 's \<Rightarrow> 'a list \<Rightarrow> error + 's" where
  "foldE f s [] = Inr s"
| "foldE f s (x # xs) = (case f s x of Inl e \<Rightarrow> Inl e | Inr s' \<Rightarrow> foldE f s' xs)"

fun mapE :: "('a \<Rightarrow> error + 'b) \<Rightarrow> 'a list \<Rightarrow> error + 'b list" where
  "mapE f [] = Inr []"
| "mapE f (x # xs) =
     (case f x of Inl e \<Rightarrow> Inl e
      | Inr y \<Rightarrow> (case mapE f xs of Inl e \<Rightarrow> Inl e | Inr ys \<Rightarrow> Inr (y # ys)))"

section \<open>OutputFilePath\<close>

text \<open>
  \<^verbatim>\<open>util.SourceMode\<close> (a function of this repository that is not among the sources) and
  \<^verbatim>\<open>filepath.Join\<close> (standard library, platform dependent) are parameters.  Indexing the
  empty argument list panics.
\<close>

definition OutputFilePath ::
  "(gostring list \<Rightarrow> bool) \<Rightarrow> (gostring list \<Rightarrow> gostring) \<Rightarrow> unicode
     \<Rightarrow> gostring list \<Rightarrow> gostring \<Rightarrow> gostring \<Rightarrow> error + gostring" where
  "OutputFilePath SourceMode fpJoin U args outputDirPath outputFilePathOverride =
     (if outputFilePathOverride \<noteq> [] then Inr outputFilePathOverride
      else if SourceMode args then
        (case args of
           [] \<Rightarrow> Inl IndexOutOfRange
         | a0 # _ \<Rightarrow>
             Inr (fpJoin [outputDirPath,
                    str ''mock_'' @ TrimSuffix a0 (str ''.go'') @ str ''_test.go'']))
      else
        (if args = [] then Inl IndexOutOfRange
         else Inr (fpJoin [outputDirPath,
                    str ''mock_'' @ ToLower U (last args) @ str ''_test.go''])))"

text \<open>
  Modelled from the spec: \<^verbatim>\<open>util.SourceMode\<close> is missing from the sources; the spec calls
  single-file mode the mode with one path argument.
\<close>

definition sourceModeOneArg :: "gostring list \<Rightarrow> bool" where
  "sourceModeOneArg args = (length args = 1)"

text \<open>
  \<^verbatim>\<open>filepath.Join\<close> on a platform whose separator is the slash, without its final
  \<^verbatim>\<open>Clean\<close>: empty elements are ignored and the others joined.  On elements that are
  clean already, as in the evaluations below, \<^verbatim>\<open>Clean\<close> changes nothing.
\<close>

definition joinSlash :: "gostring list \<Rightarrow> gostring" where
  "joinSlash elems = Join (filter (\<lambda>e. e \<noteq> []) elems) (str ''/'')"

section \<open>The generator and its printing primitives\<close>

record generator =
  buf :: gostring
  indent :: gostring
  packageMap :: "gostring \<rightharpoonup> gostring"

text \<open>
  \<^verbatim>\<open>g.p(format, args...)\<close> appends the indentation, the formatted text and a newline;
  the argument here is the text after formatting.
\<close>

definition g_p :: "gostring \<Rightarrow> generator \<Rightarrow> generator" where
  "g_p line g = g\<lparr>buf := buf g @ indent g @ line @ [10]\<rparr>"

definition g_in :: "generator \<Rightarrow> generator" where
  "g_in g = g\<lparr>indent := indent g @ [9]\<rparr>"

definition g_out :: "generator \<Rightarrow> generator" where
  "g_out g = (if length (indent g) > 0 then g\<lparr>indent := butlast (indent g)\<rparr> else g)"

text \<open>A sequence of statements on the generator, run in order.\<close>

definition steps :: "(generator \<Rightarrow> generator) list \<Rightarrow> generator \<Rightarrow> generator" where
  "steps fs g = foldl (\<lambda>h f. f h) g fs"

section \<open>sanitize\<close>

text \<open>
  One round of the loop of \<^verbatim>\<open>sanitize\<close>: the rune is kept when it may stand at this
  position of an identifier, otherwise an underscore (code point 95) is appended.
\<close>

definition sanitize_step :: "unicode \<Rightarrow> gostring \<Rightarrow> rune \<Rightarrow> gostring" where
  "sanitize_step U t r =
     (if t = [] then
        (if IsLetter U r \<or> r = 95 then t @ [r] else t @ [95])
      else
        (if IsLetter U r \<or> IsDigit U r \<or> r = 95 then t @ [r] else t @ [95]))"

definition sanitize :: "unicode \<Rightarrow> gostring \<Rightarrow> gostring" where
  "sanitize U s =
     (let t = foldl (sanitize_step U) [] s
      in if t = str ''_'' then str ''x'' else t)"

text \<open>
  The two character classes the loop distinguishes: what may stand anywhere in an identifier
  after its first position, and what may start one.
\<close>

definition identChar :: "unicode \<Rightarrow> rune \<Rightarrow> bool" where
  "identChar U r = (IsLetter U r \<or> IsDigit U r \<or> r = 95)"

definition identStart :: "unicode \<Rightarrow> rune \<Rightarrow> bool" where
  "identStart U r = (IsLetter U r \<or> r = 95)"

section \<open>Alias allocation (the first loop of Generate)\<close>

text \<open>
  The inner loop \<^verbatim>\<open>for localNames[pkgName] || token.Lookup(pkgName).IsKeyword()\<close>.
  \<open>localNames\<close>, a Go map used as a set, is the list of the names allocated so far.  The
  counter is a natural number: it never exceeds the number of allocated names plus the
  number of keywords (lemma \<open>uniqueName_counter_bound\<close>), far below the range of Go's
  \<^verbatim>\<open>int\<close>.
\<close>

function uniqueName :: "gostring list \<Rightarrow> gostring \<Rightarrow> nat \<Rightarrow> gostring \<Rightarrow> gostring" where
  "uniqueName localNames base i pkgName =
     (if pkgName \<in> set localNames \<or> IsKeyword pkgName
      then uniqueName localNames base (i + 1) (base @ Itoa i)
      else pkgName)"
  by pat_completeness auto

text \<open>Decimal numerals can be read back, so \<^verbatim>\<open>Itoa\<close> is injective.\<close>

definition undigits :: "gostring \<Rightarrow> nat" where
  "undigits ds = foldl (\<lambda>a d. 10 * a + (d - 48)) 0 ds"

lemma undigits_Itoa: "undigits (Itoa n) = n"
proof (induction n rule: Itoa.induct)
  case (1 n)
  show ?case
  proof (cases "n < 10")
    case True
    then show ?thesis by (simp add: Itoa.simps [of n] undigits_def)
  next
    case False
    with 1 have "undigits (Itoa (n div 10)) = n div 10" by simp
    with False show ?thesis by (simp add: Itoa.simps [of n] undigits_def)
  qed
qed

lemma Itoa_inj: "Itoa m = Itoa n \<Longrightarrow> m = n"
  by (metis undigits_Itoa)

lemma candidates_finite:
  "finite {j. i \<le> j \<and> (base @ Itoa j \<in> set ln \<or> IsKeyword (base @ Itoa j))}"
proof -
  let ?S = "set ln \<union> set goKeywords"
  have inj: "inj (\<lambda>j. base @ Itoa j)"
    by (auto simp: inj_on_def dest: Itoa_inj)
  have "finite ((\<lambda>j. base @ Itoa j) -` ?S)"
    by (rule finite_vimageI [OF _ inj]) simp
  moreover have "{j. i \<le> j \<and> (base @ Itoa j \<in> set ln \<or> IsKeyword (base @ Itoa j))}
      \<subseteq> (\<lambda>j. base @ Itoa j) -` ?S"
    by (auto simp: IsKeyword_def)
  ultimately show ?thesis by (rule rev_finite_subset)
qed

text \<open>
  The loop ends: the candidates \<open>base @ Itoa j\<close> are pairwise different, and only finitely
  many of them are allocated names or keywords.
\<close>

termination uniqueName
proof (relation "measure (\<lambda>(ln, base, i, n).
    2 * card {j. i \<le> j \<and> (base @ Itoa j \<in> set ln \<or> IsKeyword (base @ Itoa j))}
    + (if n \<in> set ln \<or> IsKeyword n then 1 else 0))", goal_cases)
  case 1
  then show ?case by simp
next
  case (2 ln base i n)
  let ?taken = "\<lambda>s. s \<in> set ln \<or> IsKeyword s"
  let ?A = "{j. i \<le> j \<and> ?taken (base @ Itoa j)}"
  let ?B = "{j. i + 1 \<le> j \<and> ?taken (base @ Itoa j)}"
  have fin: "finite ?A" by (rule candidates_finite)
  show ?case
  proof (cases "?taken (base @ Itoa i)")
    case True
    then have "i \<in> ?A" and "i \<notin> ?B" by auto
    moreover have "?B \<subseteq> ?A" by auto
    ultimately have "?B \<subset> ?A" by blast
    with fin have "card ?B < card ?A" by (rule psubset_card_mono)
    with True 2 show ?thesis by simp
  next
    case False
    then have "?B = ?A"
      by (auto simp: Suc_le_eq) (metis le_neq_implies_less)+
    with False 2 show ?thesis by simp
  qed
qed

declare uniqueName.simps [simp del]

text \<open>
  One round of \<^verbatim>\<open>for pth := range im\<close>, on the pair of \<^verbatim>\<open>g.packageMap\<close> and
  \<^verbatim>\<open>localNames\<close>.
\<close>

definition aliasStep ::
  "unicode \<Rightarrow> (gostring \<rightharpoonup> gostring) \<times> gostring list \<Rightarrow> gostring
     \<Rightarrow> (gostring \<rightharpoonup> gostring) \<times> gostring list" where
  "aliasStep U st pth =
     (case st of (pkgMap, localNames) \<Rightarrow>
        let base = sanitize U (Base pth);
            pkgName = uniqueName localNames base 0 base
        in (pkgMap(pth \<mapsto> pkgName), pkgName # localNames))"

text \<open>
  Go leaves the order in which \<^verbatim>\<open>range\<close> visits the keys of a map unspecified.  The
  order of a run is an input of the model: the list \<open>im\<close> of the keys in the order visited.
\<close>

definition allocAliases ::
  "unicode \<Rightarrow> gostring list \<Rightarrow> (gostring \<rightharpoonup> gostring) \<times> gostring list" where
  "allocAliases U im = foldl (aliasStep U) (Map.empty, []) im"

definition taken :: "gostring list \<Rightarrow> gostring \<Rightarrow> bool" where
  "taken localNames s = (s \<in> set localNames \<or> IsKeyword s)"

definition aliasInv :: "(gostring \<rightharpoonup> gostring) \<times> gostring list \<Rightarrow> bool" where
  "aliasInv st =
     (case st of (pm, ln) \<Rightarrow>
        (\<forall>p a. pm p = Some a \<longrightarrow> a \<in> set ln \<and> \<not> IsKeyword a)
      \<and> (\<forall>p q a. pm p = Some a \<and> pm q = Some a \<longrightarrow> p = q))"

text \<open>
  \<open>iterates order keys\<close>: the list \<open>order\<close> is one way of visiting every key of a map with
  key set \<open>keys\<close> exactly once.
\<close>

definition iterates :: "gostring list \<Rightarrow> gostring set \<Rightarrow> bool" where
  "iterates order keys = (distinct order \<and> set order = keys)"

definition importPath :: gostring where
  "importPath = str ''github.com/petergtz/pegomock''"

section \<open>getStuff\<close>

text \<open>A parameter without a name is called \<^verbatim>\<open>_paramN\<close> after its position.\<close>

definition paramName :: "nat \<Rightarrow> 'ty Parameter \<Rightarrow> gostring" where
  "paramName i p = (if ParamName p = [] then str ''_param'' @ Itoa i else ParamName p)"

definition getStuff ::
  "'ty typeString \<Rightarrow> 'ty Method \<Rightarrow> generator \<Rightarrow> gostring
     \<Rightarrow> gostring list \<times> gostring list \<times> gostring \<times> gostring list \<times> gostring \<times> gostring" where
  "getStuff tstr method g pkgOverride =
     (let args0 = map (\<lambda>(i, p). paramName i p @ str '' ''
                          @ tstr (ParamType p) (packageMap g) pkgOverride)
                    (enumerate 0 (In method));
          argNames0 = map (\<lambda>(i, p). paramName i p) (enumerate 0 (In method));
          args = (case Variadic method of
                    None \<Rightarrow> args0
                  | Some v \<Rightarrow>
                      args0 @ [paramName (length (In method)) v @ str '' ...''
                                 @ tstr (ParamType v) (packageMap g) pkgOverride]);
          argNames = (case Variadic method of
                        None \<Rightarrow> argNames0
                      | Some v \<Rightarrow> argNames0 @ [paramName (length (In method)) v]);
          argString = Join args (str '', '');
          rets = map (\<lambda>p. tstr (ParamType p) (packageMap g) pkgOverride) (Out method);
          retString0 = Join rets (str '', '');
          retString1 = (if length rets > 1 then str ''('' @ retString0 @ str '')''
                        else retString0);
          retString = (if retString1 \<noteq> [] then str '' '' @ retString1 else retString1);
          argNamesString = Join argNames (str '', '')
      in (args, argNames, argString, rets, retString, argNamesString))"

section \<open>GenerateMockMethod\<close>

text \<open>
  A loop \<^verbatim>\<open>for i, x := range xs { body }\<close> that only prints is the sequence of its
  bodies, \<open>steps (map body (enumerate 0 xs))\<close>.  Inside the loop over the return types
  the source calls \<^verbatim>\<open>g.in()\<close> without a matching \<^verbatim>\<open>g.out()\<close>; the model does the same.
\<close>

definition GenerateMockMethod ::
  "'ty typeString \<Rightarrow> gostring \<Rightarrow> 'ty Method \<Rightarrow> gostring \<Rightarrow> generator \<Rightarrow> generator" where
  "GenerateMockMethod tstr mockType method pkgOverride g =
     (case getStuff tstr method g pkgOverride of
        (args, argNames, argString, returnTypes, retString, callArgs) \<Rightarrow>
          let r = (if length (Out method) > 0 then str ''result :='' else []);
              reflectReturnTypes =
                map (\<lambda>returnType. str ''reflect.TypeOf((*'' @ returnType @ str '')(nil)).Elem()'')
                  returnTypes;
              returnValues = map (\<lambda>(i, returnType). str ''ret'' @ Itoa i)
                               (enumerate 0 returnTypes)
          in steps
            [g_p (str ''func (mock *'' @ mockType @ str '') '' @ MethodName method
                    @ str ''('' @ argString @ str '')'' @ retString @ str '' {''),
             g_in,
             g_p (str ''params := []pegomock.Param{'' @ callArgs @ str ''}''),
             g_p (r @ str '' pegomock.GetGenericMockFrom(mock).Invoke('' @ quoteMark
                    @ MethodName method @ quoteMark @ str '', params, ''
                    @ boolStr (Variadic method \<noteq> None) @ str '', []reflect.Type{''
                    @ Join reflectReturnTypes (str '', '') @ str ''})''),
             (\<lambda>h. if length (Out method) > 0 then
                steps
                  [steps (map (\<lambda>(i, returnType).
                             g_p (str ''var ret'' @ Itoa i @ str '' '' @ returnType))
                           (enumerate 0 returnTypes)),
                   g_p (str ''if len(result) != 0 {''),
                   g_in,
                   steps (map (\<lambda>(i, returnType).
                             steps
                               [g_p (str ''if result['' @ Itoa i @ str ''] != nil {''),
                                g_in,
                                g_p (str ''ret'' @ Itoa i @ str ''  = result['' @ Itoa i
                                       @ str ''].('' @ returnType @ str '')''),
                                g_p (str ''}'')])
                           (enumerate 0 returnTypes)),
                   g_out,
                   g_p (str ''}''),
                   g_p (str ''return '' @ Join returnValues (str '', ''))] h
              else h),
             g_out,
             g_p (str ''}'')] g)"

section \<open>GenerateVerifierMethod\<close>

definition bindE :: "error + 'a \<Rightarrow> ('a \<Rightarrow> error + 'b) \<Rightarrow> error + 'b" where
  "bindE x f = (case x of Inl e \<Rightarrow> Inl e | Inr v \<Rightarrow> f v)"

text \<open>\<^verbatim>\<open>splitArg\<close> indexes the second piece of the split, which panics when there is none.\<close>

definition splitArg :: "gostring \<Rightarrow> error + (gostring \<times> gostring)" where
  "splitArg arg =
     (case SplitSpace arg of
        a0 # a1 # _ \<Rightarrow> Inr (a0, a1)
      | _ \<Rightarrow> Inl IndexOutOfRange)"

definition argTypesFrom :: "gostring list \<Rightarrow> error + gostring list" where
  "argTypesFrom args = mapE (\<lambda>arg. bindE (splitArg arg) (\<lambda>(n, t). Inr t)) args"

text \<open>
  A panic discards the generator, so the model computes the fallible pieces of a function
  first and prints afterwards.
\<close>

definition calcParams ::
  "gostring \<Rightarrow> gostring list \<Rightarrow> gostring \<Rightarrow> generator \<Rightarrow> error + generator" where
  "calcParams argString args methodName g =
     (if argString \<noteq> [] then
        bindE (mapE (\<lambda>arg. bindE (splitArg arg) (\<lambda>(n, t). Inr (ReplaceEllipsis (- 1) t))) args)
          (\<lambda>paramTypes. Inr (steps
            [g_p (str ''params := pegomock.GetGenericMockFrom(c.mock).GetInvocationParams(''
                    @ quoteMark @ methodName @ quoteMark @ str '')''),
             g_p (str ''if len(params) > 0 {''),
             steps (map (\<lambda>(i, paramType).
                       steps
                         [g_p (str ''_param'' @ Itoa i @ str '' = make([]'' @ paramType
                                 @ str '', len(params['' @ Itoa i @ str '']))''),
                          g_p (str ''for u, param := range params['' @ Itoa i @ str ''] {''),
                          g_p (str ''_param'' @ Itoa i @ str ''[u]=param.('' @ paramType
                                 @ str '')''),
                          g_p (str ''}'')])
                     (enumerate 0 paramTypes)),
             g_p (str ''}'')] g))
      else Inr g)"

definition GenerateVerifierMethod ::
  "'ty typeString \<Rightarrow> gostring \<Rightarrow> 'ty Method \<Rightarrow> gostring \<Rightarrow> generator \<Rightarrow> error + generator" where
  "GenerateVerifierMethod tstr interfaceName method pkgOverride g =
     (case getStuff tstr method g pkgOverride of
        (args, argNames, argString, rets, retString, argNamesString) \<Rightarrow>
          bindE (argTypesFrom args) (\<lambda>argTypes0.
          bindE (if Variadic method \<noteq> None then
                   (if argTypes0 = [] then Inl IndexOutOfRange
                    else Inr (argTypes0[length argTypes0 - 1 :=
                                ReplaceEllipsis 1 (last argTypes0)]))
                 else Inr argTypes0) (\<lambda>argTypes.
          bindE (mapE splitArg args) (\<lambda>splits.
            let returnTypeString = interfaceName @ str ''_'' @ MethodName method
                                     @ str ''_OngoingVerification'';
                argsAsArray = map (\<lambda>(i, (n, t)). str ''_param'' @ Itoa i @ str '' []''
                                       @ ReplaceEllipsis 1 t)
                                (enumerate 0 splits);
                prefixedArgNames = map (\<lambda>argName. argName @ str ''[len('' @ argName
                                            @ str '')-1]'') argNames;
                g1 = steps
                  [g_p (str ''type '' @ returnTypeString @ str '' struct {''),
                   g_p (str ''mock *Mock'' @ interfaceName),
                   g_p (str ''}''),
                   g_p (str ''func (c *'' @ returnTypeString
                          @ str '') getCapturedArguments() ('' @ Join argTypes (str '', '')
                          @ str '') {''),
                   (\<lambda>h. if length args > 0 then
                      steps
                        [g_p (Join argNames (str '', '')
                                @ str '' := c.getAllCapturedArguments()''),
                         g_p (str ''return '' @ Join prefixedArgNames (str '', ''))] h
                    else h),
                   g_p (str ''}''),
                   g_p (str ''func (c *'' @ returnTypeString
                          @ str '') getAllCapturedArguments() ('' @ Join argsAsArray (str '', '')
                          @ str '') {'')] g
            in bindE (if length args > 0 then
                        bindE (calcParams argString args (MethodName method) g1)
                          (\<lambda>h. Inr (g_p (str ''return'') h))
                      else Inr g1) (\<lambda>g2.
                 Inr (steps
                   [g_p (str ''}''),
                    g_p (str ''func (verifier *Verifier'' @ interfaceName @ str '') ''
                           @ MethodName method @ str ''('' @ argString @ str '') *''
                           @ returnTypeString @ str '' {''),
                    g_p (str ''params := []pegomock.Param{'' @ argNamesString @ str ''}''),
                    g_p (str ''pegomock.GetGenericMockFrom(verifier.mock).Verify(verifier.inOrderContext, verifier.invocationCountMatcher, ''
                           @ quoteMark @ MethodName method @ quoteMark @ str '', params, ''
                           @ boolStr (Variadic method \<noteq> None) @ str '')''),
                    g_p (str ''return &'' @ returnTypeString @ str ''{verifier.mock}''),
                    g_p (str ''}'')] g2))))))"

section \<open>GenerateMockInterface\<close>

definition GenerateMockInterface ::
  "'ty typeString \<Rightarrow> 'ty Interface \<Rightarrow> gostring \<Rightarrow> generator \<Rightarrow> error + generator" where
  "GenerateMockInterface tstr iface selfPackage g =
     (let name = IfaceName iface;
          mockTypeName = str ''Mock'' @ name;
          g1 = steps
            [g_p [],
             g_p (str ''// Mock of '' @ name @ str '' interface''),
             g_p (str ''type '' @ mockTypeName @ str '' struct {''),
             g_in, g_p (str ''fail func(message string, callerSkip ...int)''), g_out,
             g_p (str ''}''),
             g_p [],
             g_p (str ''func New'' @ mockTypeName @ str ''() *'' @ mockTypeName @ str '' {''),
             g_in,
             g_p (str ''return &'' @ mockTypeName @ str ''{fail: pegomock.GlobalFailHandler}''),
             g_out,
             g_p (str ''}''),
             g_p [],
             steps (map (\<lambda>method.
                       steps [GenerateMockMethod tstr mockTypeName method selfPackage, g_p []])
                     (Methods iface)),
             g_p (str ''type Verifier'' @ name @ str '' struct {''),
             g_in,
             g_p (str ''mock *Mock'' @ name),
             g_p (str ''invocationCountMatcher pegomock.Matcher''),
             g_p (str ''inOrderContext *pegomock.InOrderContext''),
             g_out,
             g_p (str ''}''),
             g_p [],
             g_p (str ''func (mock *Mock'' @ name @ str '') VerifyWasCalledOnce() *Verifier''
                    @ name @ str '' {''),
             g_in,
             g_p (str ''return &Verifier'' @ name @ str ''{mock, pegomock.Times(1), nil}''),
             g_out,
             g_p (str ''}''),
             g_p [],
             g_p (str ''func (mock *Mock'' @ name
                    @ str '') VerifyWasCalled(invocationCountMatcher pegomock.Matcher) *Verifier''
                    @ name @ str '' {''),
             g_in,
             g_p (str ''return &Verifier'' @ name @ str ''{mock, invocationCountMatcher, nil}''),
             g_out,
             g_p (str ''}''),
             g_p [],
             g_p (str ''func (mock *Mock'' @ name
                    @ str '') VerifyWasCalledInOrder(invocationCountMatcher pegomock.Matcher, inOrderContext *pegomock.InOrderContext) *Verifier''
                    @ name @ str '' {''),
             g_in,
             g_p (str ''return &Verifier'' @ name
                    @ str ''{mock, invocationCountMatcher, inOrderContext}''),
             g_out,
             g_p (str ''}''),
             g_p []] g
      in foldE (\<lambda>h method.
                  bindE (GenerateVerifierMethod tstr name method selfPackage h)
                    (\<lambda>h'. Inr (g_p [] h')))
           g1 (Methods iface))"

section \<open>Generate\<close>

text \<open>
  One round of \<^verbatim>\<open>for path, pkg := range g.packageMap\<close>: the import line of one entry of the
  alias map, unless the entry is the self package.  \<^verbatim>\<open>%q\<close> prints the path through
  \<^verbatim>\<open>strconv.Quote\<close>, the parameter \<open>quote\<close>.
\<close>

definition importLine ::
  "(gostring \<Rightarrow> gostring) \<Rightarrow> gostring \<Rightarrow> generator \<Rightarrow> gostring \<Rightarrow> generator" where
  "importLine quote selfPackage g path =
     (case packageMap g path of
        None \<Rightarrow> g
      | Some pkg \<Rightarrow> if path = selfPackage then g else g_p (pkg @ str '' '' @ quote path) g)"

text \<open>
  \<^verbatim>\<open>Generate\<close>.  Both loops over maps take the order of their run as an input: \<open>imOrder\<close>
  lists the keys of \<^verbatim>\<open>im\<close> (the imports of the package and \<^verbatim>\<open>importPath\<close>) as the first
  loop visits them, \<open>pmOrder\<close> the keys of \<^verbatim>\<open>g.packageMap\<close> as the second loop does.
\<close>

definition Generate ::
  "unicode \<Rightarrow> (gostring \<Rightarrow> gostring) \<Rightarrow> 'ty typeString \<Rightarrow> gostring \<Rightarrow> 'ty Package \<Rightarrow> gostring
     \<Rightarrow> gostring \<Rightarrow> gostring list \<Rightarrow> gostring list \<Rightarrow> generator \<Rightarrow> error + generator" where
  "Generate U quote tstr source pkg pkgName selfPackage imOrder pmOrder g =
     (let g1 = steps
            [g_p (str ''// Automatically generated by MockGen. DO NOT EDIT!''),
             g_p (str ''// Source: '' @ source),
             g_p []] g;
          g2 = g1\<lparr>packageMap := fst (allocAliases U imOrder)\<rparr>;
          g3 = steps
            [g_p (str ''package '' @ pkgName),
             g_p [],
             g_p (str ''import (''),
             g_in,
             g_p (quoteMark @ str ''reflect'' @ quoteMark)] g2;
          g4 = foldl (importLine quote selfPackage) g3 pmOrder;
          g5 = steps
            [steps (map (\<lambda>path. g_p (str ''. '' @ quote path)) (DotImports pkg)),
             g_out,
             g_p (str '')'')] g4
      in foldE (\<lambda>h iface. GenerateMockInterface tstr iface selfPackage h) g5 (Interfaces pkg))"

text \<open>\<^verbatim>\<open>new(generator)\<close>.\<close>

definition newGenerator :: generator where
  "newGenerator = \<lparr> buf = [], indent = [], packageMap = Map.empty \<rparr>"

section \<open>Output\<close>

text \<open>
  \<^verbatim>\<open>Output\<close> hands the buffer to \<^verbatim>\<open>format.Source\<close> of Go's library and returns the formatted
  text; when the formatter reports an error it panics with a message that holds the
  formatter's diagnostic and the unformatted text.  The formatter is not part of the
  repository: it is the parameter \<open>Source\<close>, which returns the diagnostic (\<open>Inl\<close>) or the
  formatted text (\<open>Inr\<close>).
\<close>

definition Output :: "(gostring \<Rightarrow> gostring + gostring) \<Rightarrow> generator \<Rightarrow> error + gostring" where
  "Output Source g =
     (case Source (buf g) of
        Inl err \<Rightarrow>
          Inl (FormatFailed
                 (str ''Failed to format generated source code: '' @ err @ [10] @ buf g))
      | Inr src \<Rightarrow> Inr src)"

text \<open>
  \<^verbatim>\<open>generateOutput\<close>: a new generator runs \<^verbatim>\<open>Generate\<close>, and \<^verbatim>\<open>Output\<close> gives the result.  The
  error that \<^verbatim>\<open>Generate\<close> returns is always \<^verbatim>\<open>nil\<close>; a panic of \<^verbatim>\<open>Generate\<close> ends the run.
\<close>

definition generateOutput ::
  "(gostring \<Rightarrow> gostring + gostring) \<Rightarrow> unicode \<Rightarrow> (gostring \<Rightarrow> gostring) \<Rightarrow> 'ty typeString
     \<Rightarrow> 'ty Package \<Rightarrow> gostring \<Rightarrow> gostring \<Rightarrow> gostring \<Rightarrow> gostring list \<Rightarrow> gostring list
     \<Rightarrow> error + gostring" where
  "generateOutput Source U quote tstr ast source packageOut selfPackage imOrder pmOrder =
     (case Generate U quote tstr source ast packageOut selfPackage imOrder pmOrder newGenerator of
        Inl e \<Rightarrow> Inl e
      | Inr g \<Rightarrow> Output Source g)"

section \<open>Instances of the parameters for evaluation\<close>

text \<open>
  \<^verbatim>\<open>strconv.Quote\<close> on a string of printable ASCII characters without double quote or
  backslash, such as the import paths of the evaluations below.
\<close>

definition quotePlain :: "gostring \<Rightarrow> gostring" where
  "quotePlain s = quoteMark @ s @ quoteMark"

text \<open>
  \<^verbatim>\<open>strconv.Quote\<close> on a string of printable ASCII characters and line feeds: the double
  quote, the backslash and the line feed are written as escape sequences.
\<close>

definition quoteEscaped :: "gostring \<Rightarrow> gostring" where
  "quoteEscaped s =
     quoteMark
     @ concat (map (\<lambda>c. if c = 10 then [92, 110]
                        else if c = 34 then [92, 34]
                        else if c = 92 then [92, 92]
                        else [c]) s)
     @ quoteMark"

text \<open>A model whose type references are their own source text.\<close>

definition textType :: "gostring typeString" where
  "textType t pm pkgOverride = t"

section \<open>Notions used in the statements about the printed text\<close>

text \<open>A run of \<open>n\<close> tabs.\<close>

definition tabs :: "nat \<Rightarrow> gostring" where
  "tabs n = replicate n 9"

text \<open>
  \<open>frame f\<close>: the statement sequence \<open>f\<close> only appends to the buffer, and what it appends and
  what it does to the rest of the generator do not depend on what the buffer holds.
\<close>

definition frame :: "(generator \<Rightarrow> generator) \<Rightarrow> bool" where
  "frame f = (\<forall>g b. f (g\<lparr>buf := b @ buf g\<rparr>) = (f g)\<lparr>buf := b @ buf (f g)\<rparr>)"

definition frameE :: "(generator \<Rightarrow> error + generator) \<Rightarrow> bool" where
  "frameE f =
     (\<forall>g b. f (g\<lparr>buf := b @ buf g\<rparr>) =
        (case f g of Inl e \<Rightarrow> Inl e | Inr g' \<Rightarrow> Inr (g'\<lparr>buf := b @ buf g'\<rparr>)))"

text \<open>
  The lines the second loop of \<^verbatim>\<open>Generate\<close> prints when it visits the keys of the alias map
  \<open>pm\<close> in the order \<open>order\<close> at indentation \<open>ind\<close>: one line \<^verbatim>\<open>alias "path"\<close> for every
  entry but that of the self package.
\<close>

definition aliasImportLines ::
  "(gostring \<Rightarrow> gostring) \<Rightarrow> gostring \<Rightarrow> (gostring \<rightharpoonup> gostring) \<Rightarrow> gostring
     \<Rightarrow> gostring list \<Rightarrow> gostring list" where
  "aliasImportLines quote selfPackage pm ind order =
     concat (map (\<lambda>path. case pm path of
                            None \<Rightarrow> []
                          | Some pkg \<Rightarrow>
                              if path = selfPackage then []
                              else [ind @ pkg @ str '' '' @ quote path @ [10]])
               order)"

text \<open>
  The text that a run of \<^verbatim>\<open>Generate\<close> has assembled in the buffer, or its panic.  This is
  the unformatted text, the argument that \<^verbatim>\<open>Output\<close> gives to the formatter; the generated
  output is \<open>generateOutput\<close>.
\<close>

definition assembledText :: "error + generator \<Rightarrow> error + gostring" where
  "assembledText r = (case r of Inl e \<Rightarrow> Inl e | Inr g \<Rightarrow> Inr (buf g))"

text \<open>
  \<open>aliasName U a\<close>: the alias is not empty and made of letters, digits and underscores only;
  in particular it holds no space, and starts with neither a double quote nor a dot.
\<close>

definition aliasName :: "unicode \<Rightarrow> gostring \<Rightarrow> bool" where
  "aliasName U a = (a \<noteq> [] \<and> (\<forall>r\<in>set a. identChar U r))"

section \<open>The formatter as far as the order of imports goes\<close>

text \<open>
  A line that is empty or a \<^verbatim>\<open>//\<close> comment, and a line of a parenthesised import declaration:
  a tab, then either a string literal without escape sequences, or a name of letters,
  digits and underscores that is no keyword, a space and a quoted path.
\<close>

definition lineComment :: "gostring \<Rightarrow> bool" where
  "lineComment l = (l = [10] \<or> (\<exists>t. l = str ''//'' @ t @ [10] \<and> 10 \<notin> set t))"

definition importSpecLine :: "unicode \<Rightarrow> (gostring \<Rightarrow> gostring) \<Rightarrow> gostring \<Rightarrow> bool" where
  "importSpecLine U quote l =
     ((\<exists>p. l = [9] @ quoteMark @ p @ quoteMark @ [10] \<and> 10 \<notin> set p \<and> 34 \<notin> set p
            \<and> 92 \<notin> set p)
    \<or> (\<exists>a p. aliasName U a \<and> \<not> IsKeyword a \<and> l = [9] @ a @ str '' '' @ quote p @ [10]))"

text \<open>Two results of the formatter agree: both are diagnostics, or both are the same text.\<close>

definition sameResult :: "gostring + gostring \<Rightarrow> gostring + gostring \<Rightarrow> bool" where
  "sameResult r1 r2 =
     (case r1 of
        Inl d1 \<Rightarrow> (case r2 of Inl d2 \<Rightarrow> True | Inr t2 \<Rightarrow> False)
      | Inr t1 \<Rightarrow> (case r2 of Inl d2 \<Rightarrow> False | Inr t2 \<Rightarrow> t1 = t2))"

text \<open>
  The formatter is not part of the repository.  \<^verbatim>\<open>format.Source\<close> of Go's library sorts the
  import specifications that stand on consecutive lines of a parenthesised import
  declaration (\<^verbatim>\<open>ast.SortImports\<close>) before it prints the file.  The statement about the
  generated output takes of this, as a hypothesis on the parameter \<open>Source\<close>, the property
  \<open>importOrderInsensitive\<close>: on a file that opens with comment lines, a package clause and
  the line \<^verbatim>\<open>import (\<close>, the result of the formatter is the same for every order of the
  import lines that follow (the same text, or a diagnostic both times).  Nothing else is
  assumed of the formatter.
\<close>

definition importOrderInsensitive ::
  "unicode \<Rightarrow> (gostring \<Rightarrow> gostring) \<Rightarrow> (gostring \<Rightarrow> gostring + gostring) \<Rightarrow> bool" where
  "importOrderInsensitive U quote Source =
     (\<forall>cs name bs ls ls' rest.
        (\<forall>c\<in>set cs. lineComment c) \<and> aliasName U name \<and> (\<forall>b\<in>set bs. b = [10])
        \<and> (\<forall>l\<in>set ls. importSpecLine U quote l) \<and> mset ls' = mset ls
        \<longrightarrow> sameResult
              (Source (concat cs @ str ''package '' @ name @ [10] @ concat bs
                       @ str ''import ('' @ [10] @ concat ls @ rest))
              (Source (concat cs @ str ''package '' @ name @ [10] @ concat bs
                       @ str ''import ('' @ [10] @ concat ls' @ rest)))"

text \<open>
  A formatter for evaluation that does this and nothing else: it cuts the text into lines,
  sorts the lines between the first line \<^verbatim>\<open>import (\<close> and the next line \<^verbatim>\<open>)\<close> by their quoted
  paths (the line from its first double quote on) and then by the whole line, and leaves
  the rest as it is.  A text without the line \<^verbatim>\<open>import (\<close> gets a diagnostic.
\<close>

fun linesOf :: "gostring \<Rightarrow> gostring list" where
  "linesOf [] = []"
| "linesOf (c # cs) =
     (if c = 10 then [10] # linesOf cs
      else (case linesOf cs of [] \<Rightarrow> [[c]] | l # ls \<Rightarrow> (c # l) # ls))"

definition sortByPath :: "gostring list \<Rightarrow> gostring list" where
  "sortByPath ls = map snd (sort (map (\<lambda>l. (dropWhile (\<lambda>c. c \<noteq> 34) l, l)) ls))"

definition sortImportLines :: "gostring \<Rightarrow> gostring + gostring" where
  "sortImportLines src =
     (let ls = linesOf src;
          before = takeWhile (\<lambda>l. l \<noteq> str ''import ('' @ [10]) ls
      in case dropWhile (\<lambda>l. l \<noteq> str ''import ('' @ [10]) ls of
           [] \<Rightarrow> Inl (str ''expected import declaration'')
         | opening # body \<Rightarrow>
             Inr (concat (before @ opening
                          # sortByPath (takeWhile (\<lambda>l. l \<noteq> str '')'' @ [10]) body)
                          @ dropWhile (\<lambda>l. l \<noteq> str '')'' @ [10]) body)))"

section \<open>Example models\<close>

text \<open>
  \<^verbatim>\<open>Greet(name string) string\<close>, \<^verbatim>\<open>Log(format string, args ...string)\<close> and
  \<^verbatim>\<open>Pair() (int, error)\<close>, with type references that are their own source text.
\<close>

definition greetMethod :: "gostring Method" where
  "greetMethod =
     \<lparr> MethodName = str ''Greet'',
       In = [\<lparr> ParamName = str ''name'', ParamType = str ''string'' \<rparr>],
       Out = [\<lparr> ParamName = [], ParamType = str ''string'' \<rparr>],
       Variadic = None \<rparr>"

definition logMethod :: "gostring Method" where
  "logMethod =
     \<lparr> MethodName = str ''Log'',
       In = [\<lparr> ParamName = str ''format'', ParamType = str ''string'' \<rparr>],
       Out = [],
       Variadic = Some \<lparr> ParamName = str ''args'', ParamType = str ''string'' \<rparr> \<rparr>"

definition pairMethod :: "gostring Method" where
  "pairMethod =
     \<lparr> MethodName = str ''Pair'',
       In = [],
       Out = [\<lparr> ParamName = [], ParamType = str ''int'' \<rparr>,
              \<lparr> ParamName = [], ParamType = str ''error'' \<rparr>],
       Variadic = None \<rparr>"

text \<open>
  A package without interfaces that needs \<^verbatim>\<open>io\<close> and dot-imports \<^verbatim>\<open>fmt\<close>, one that also
  needs \<^verbatim>\<open>example.com/mocks\<close>, and a package with the interface \<^verbatim>\<open>Greeter\<close> that needs the
  two \<^verbatim>\<open>template\<close> packages.
\<close>

definition ioPackage :: "gostring Package" where
  "ioPackage =
     \<lparr> PkgName = str ''foo'', Interfaces = [], DotImports = [str ''fmt''],
       Imports = {str ''io''} \<rparr>"

definition greeterPackage :: "gostring Package" where
  "greeterPackage =
     \<lparr> PkgName = str ''foo'',
       Interfaces = [\<lparr> IfaceName = str ''Greeter'', Methods = [greetMethod] \<rparr>],
       DotImports = [],
       Imports = {str ''html/template'', str ''text/template''} \<rparr>"

definition mocksPackage :: "gostring Package" where
  "mocksPackage =
     \<lparr> PkgName = str ''foo'', Interfaces = [], DotImports = [str ''fmt''],
       Imports = {str ''io'', str ''example.com/mocks''} \<rparr>"


text \<open>
  A package that needs \<^verbatim>\<open>example.com/mocks\<close> and also dot-imports it, and a package that
  needs \<^verbatim>\<open>reflect\<close>.
\<close>

definition dotSelfPackage :: "gostring Package" where
  "dotSelfPackage =
     \<lparr> PkgName = str ''foo'', Interfaces = [], DotImports = [str ''example.com/mocks''],
       Imports = {str ''example.com/mocks''} \<rparr>"

definition reflectPackage :: "gostring Package" where
  "reflectPackage =
     \<lparr> PkgName = str ''foo'', Interfaces = [], DotImports = [],
       Imports = {str ''reflect''} \<rparr>"
section \<open>Properties of sanitize\<close>

lemma str_underscore: "str ''_'' = [95]"
  by (simp add: str_def)

lemma str_x: "str ''x'' = [120]"
  by (simp add: str_def)

lemma sanitize_step_length: "length (sanitize_step U t r) = Suc (length t)"
  by (simp add: sanitize_step_def)

lemma sanitize_loop_length:
  "length (foldl (sanitize_step U) t s) = length t + length s"
  by (induction s arbitrary: t) (simp_all add: sanitize_step_length)

lemma sanitize_loop_invalid:
  "\<forall>r\<in>set s. \<not> identChar U r \<Longrightarrow>
     foldl (sanitize_step U) t s = t @ replicate (length s) 95"
proof (induction s arbitrary: t)
  case Nil
  then show ?case by simp
next
  case (Cons r s)
  have "sanitize_step U t r = t @ [95]"
    using Cons.prems by (simp add: sanitize_step_def identChar_def)
  then show ?case
    using Cons by (simp add: replicate_app_Cons_same)
qed

lemma sanitize_step_ident:
  assumes "t = [] \<or> (identStart U (hd t) \<and> (\<forall>r\<in>set t. identChar U r))"
  shows "identStart U (hd (sanitize_step U t r))
       \<and> (\<forall>q\<in>set (sanitize_step U t r). identChar U q)"
  using assms by (auto simp: sanitize_step_def identStart_def identChar_def)

lemma sanitize_loop_ident:
  "t = [] \<or> (identStart U (hd t) \<and> (\<forall>r\<in>set t. identChar U r)) \<Longrightarrow>
   foldl (sanitize_step U) t s = [] \<or>
     (identStart U (hd (foldl (sanitize_step U) t s)) \<and>
      (\<forall>r\<in>set (foldl (sanitize_step U) t s). identChar U r))"
proof (induction s arbitrary: t)
  case Nil
  then show ?case by simp
next
  case (Cons r s)
  from sanitize_step_ident [OF Cons.prems, of r]
  show ?case by (simp add: Cons.IH)
qed

text \<open>
  Claim C10.  On every non-empty input \<^verbatim>\<open>sanitize\<close> returns a non-empty string all of
  whose characters are letters, digits or underscores and whose first character is a letter
  or an underscore; where the library's letter and digit classes are disjoint (as Unicode's
  are), the first character is therefore not a digit.
\<close>

theorem sanitize_nonempty_identifier:
  assumes "s \<noteq> []"
  shows "sanitize U s \<noteq> []
       \<and> (\<forall>r\<in>set (sanitize U s). IsLetter U r \<or> IsDigit U r \<or> r = 95)
       \<and> (IsLetter U (hd (sanitize U s)) \<or> hd (sanitize U s) = 95)
       \<and> ((\<forall>r. \<not> (IsLetter U r \<and> IsDigit U r)) \<longrightarrow> \<not> IsDigit U (hd (sanitize U s)))"
proof -
  let ?t = "foldl (sanitize_step U) [] s"
  have len: "length ?t = length s"
    using sanitize_loop_length [of U "[]" s] by simp
  with assms have ne: "?t \<noteq> []" by auto
  have inv: "identStart U (hd ?t) \<and> (\<forall>r\<in>set ?t. identChar U r)"
    using sanitize_loop_ident [of "[]" U s] ne by simp
  have x: "IsLetter U 120" by (simp add: IsLetter_def)
  have d95: "\<not> IsDigit U 95" by (simp add: IsDigit_def)
  show ?thesis
  proof (cases "?t = str ''_''")
    case True
    then have "sanitize U s = [120]" by (simp add: sanitize_def str_x)
    with x show ?thesis by auto
  next
    case False
    then have "sanitize U s = ?t" by (simp add: sanitize_def)
    with ne inv d95 show ?thesis by (auto simp: identStart_def identChar_def)
  qed
qed

theorem sanitize_nonempty_identifier_witness:
  "str ''9-a'' \<noteq> [] \<and> sanitize asciiOnly (str ''9-a'') = str ''__a''
     \<and> (\<forall>r. \<not> (IsLetter asciiOnly r \<and> IsDigit asciiOnly r))
     \<and> \<not> IsDigit asciiOnly (hd (sanitize asciiOnly (str ''9-a'')))"
proof -
  have ne: "str ''9-a'' \<noteq> []" by (simp add: str_def)
  have dj: "\<forall>r. \<not> (IsLetter asciiOnly r \<and> IsDigit asciiOnly r)"
    by (simp add: IsLetter_def IsDigit_def asciiOnly_def)
  have ev: "sanitize asciiOnly (str ''9-a'') = str ''__a''"
    by (simp add: sanitize_def sanitize_step_def str_def IsLetter_def IsDigit_def)
  from sanitize_nonempty_identifier [OF ne, of asciiOnly] dj ev ne show ?thesis by blast
qed

text \<open>
  Claim C3, as the code has it.  \<^verbatim>\<open>sanitize\<close> maps the empty string to the empty string
  (the loop body never runs and the result is not the single underscore), maps
  \<^verbatim>\<open>"my-pkg.v2"\<close> to \<^verbatim>\<open>"my_pkg_v2"\<close>, and maps a non-empty string made only of invalid
  identifier characters to the fallback \<^verbatim>\<open>"x"\<close> when it has exactly one character and to
  as many underscores as it has characters otherwise.
\<close>

theorem sanitize_examples:
  "sanitize U [] = []
   \<and> sanitize U (str ''my-pkg.v2'') = str ''my_pkg_v2''
   \<and> (\<forall>s. s \<noteq> [] \<and> (\<forall>r\<in>set s. \<not> (IsLetter U r \<or> IsDigit U r \<or> r = 95)) \<longrightarrow>
         sanitize U s = (if length s = 1 then str ''x'' else replicate (length s) 95))"
proof -
  have a: "sanitize U [] = []" by (simp add: sanitize_def str_def)
  have b: "sanitize U (str ''my-pkg.v2'') = str ''my_pkg_v2''"
    by (simp add: sanitize_def sanitize_step_def str_def IsLetter_def IsDigit_def)
  have c: "sanitize U s = (if length s = 1 then str ''x'' else replicate (length s) 95)"
    if "s \<noteq> []" and inv: "\<forall>r\<in>set s. \<not> (IsLetter U r \<or> IsDigit U r \<or> r = 95)" for s
  proof -
    have "foldl (sanitize_step U) [] s = replicate (length s) 95"
      using sanitize_loop_invalid [of s U "[]"] inv by (simp add: identChar_def)
    moreover have "replicate (length s) 95 = [95::nat] \<longleftrightarrow> length s = 1"
      by (cases s; cases "tl s") auto
    ultimately show ?thesis by (simp add: sanitize_def str_underscore)
  qed
  from a b c show ?thesis by blast
qed

theorem sanitize_examples_witness:
  "sanitize asciiOnly (str ''-.'') = str ''__'' \<and> sanitize asciiOnly (str ''.'') = str ''x''"
proof -
  have h1: "str ''-.'' \<noteq> []
      \<and> (\<forall>r\<in>set (str ''-.''). \<not> (IsLetter asciiOnly r \<or> IsDigit asciiOnly r \<or> r = 95))"
    by (simp add: str_def IsLetter_def IsDigit_def)
  have h2: "str ''.'' \<noteq> []
      \<and> (\<forall>r\<in>set (str ''.''). \<not> (IsLetter asciiOnly r \<or> IsDigit asciiOnly r \<or> r = 95))"
    by (simp add: str_def IsLetter_def IsDigit_def)
  from sanitize_examples [of asciiOnly] h1
  have "sanitize asciiOnly (str ''-.'') =
      (if length (str ''-.'') = 1 then str ''x'' else replicate (length (str ''-.'')) 95)"
    by blast
  moreover from sanitize_examples [of asciiOnly] h2
  have "sanitize asciiOnly (str ''.'') =
      (if length (str ''.'') = 1 then str ''x'' else replicate (length (str ''.'')) 95)"
    by blast
  ultimately show ?thesis by (simp add: str_def)
qed

text \<open>
  The claim as written fails twice: the empty string does not go to the fallback, and
  neither does a string of two invalid characters.
\<close>

theorem sanitize_examples_counterexample:
  "sanitize asciiOnly (str '''') \<noteq> str ''x'' \<and> sanitize asciiOnly (str ''--'') \<noteq> str ''x''"
  by (simp add: sanitize_def sanitize_step_def str_def IsLetter_def IsDigit_def)

section \<open>Properties of the alias allocation\<close>

lemma uniqueName_not_taken: "\<not> taken ln (uniqueName ln base i n)"
proof (induction ln base i n rule: uniqueName.induct)
  case (1 ln base i n)
  show ?case
  proof (cases "n \<in> set ln \<or> IsKeyword n")
    case True
    with 1 show ?thesis by (simp add: uniqueName.simps [of ln base i n])
  next
    case False
    then show ?thesis by (simp add: uniqueName.simps [of ln base i n] taken_def)
  qed
qed

text \<open>
  The loop returns the first candidate of the row \<open>n, base0, base1, \<dots>\<close> (from index \<open>i\<close>
  on) that is neither allocated nor a keyword.
\<close>

lemma uniqueName_first:
  "uniqueName ln base i n = n \<and> \<not> taken ln n \<or>
   taken ln n \<and> (\<exists>k\<ge>i. uniqueName ln base i n = base @ Itoa k \<and>
      (\<forall>j. i \<le> j \<and> j < k \<longrightarrow> taken ln (base @ Itoa j)))"
proof (induction ln base i n rule: uniqueName.induct)
  case (1 ln base i n)
  show ?case
  proof (cases "n \<in> set ln \<or> IsKeyword n")
    case False
    then show ?thesis by (simp add: uniqueName.simps [of ln base i n] taken_def)
  next
    case True
    then have tk: "taken ln n" by (simp add: taken_def)
    have unf: "uniqueName ln base i n = uniqueName ln base (i + 1) (base @ Itoa i)"
      using True by (simp add: uniqueName.simps [of ln base i n])
    from 1 [OF True] consider
      (stop) "uniqueName ln base (i + 1) (base @ Itoa i) = base @ Itoa i"
        "\<not> taken ln (base @ Itoa i)"
    | (more) k where "taken ln (base @ Itoa i)" "i + 1 \<le> k"
        "uniqueName ln base (i + 1) (base @ Itoa i) = base @ Itoa k"
        "\<forall>j. i + 1 \<le> j \<and> j < k \<longrightarrow> taken ln (base @ Itoa j)"
      by blast
    then show ?thesis
    proof cases
      case stop
      with tk unf show ?thesis by (intro disjI2 conjI exI [of _ i]) auto
    next
      case more
      have "\<forall>j. i \<le> j \<and> j < k \<longrightarrow> taken ln (base @ Itoa j)"
      proof (intro allI impI)
        fix j assume "i \<le> j \<and> j < k"
        then have "j = i \<or> (i + 1 \<le> j \<and> j < k)" by arith
        with more show "taken ln (base @ Itoa j)" by blast
      qed
      with tk unf more show ?thesis by (intro disjI2 conjI exI [of _ k]) auto
    qed
  qed
qed

text \<open>
  The counter stays small: the suffix of the result is at most the number of allocated
  names plus the number of keywords.
\<close>

lemma uniqueName_counter_bound:
  assumes "taken ln n"
  shows "\<exists>k \<le> length ln + length goKeywords. uniqueName ln base 0 n = base @ Itoa k"
proof -
  from uniqueName_first [of ln base 0 n] assms obtain k where
    res: "uniqueName ln base 0 n = base @ Itoa k" and
    below: "\<forall>j<k. taken ln (base @ Itoa j)"
    by auto
  let ?S = "set ln \<union> set goKeywords"
  have "inj_on (\<lambda>j. base @ Itoa j) {..<k}"
    by (auto simp: inj_on_def dest: Itoa_inj)
  moreover have "(\<lambda>j. base @ Itoa j) ` {..<k} \<subseteq> ?S"
    using below by (auto simp: taken_def IsKeyword_def)
  ultimately have "card {..<k} \<le> card ?S"
    by (intro card_inj_on_le) simp_all
  also have "\<dots> \<le> card (set ln) + card (set goKeywords)" by (rule card_Un_le)
  also have "\<dots> \<le> length ln + length goKeywords"
    by (intro add_mono card_length)
  finally have "k \<le> length ln + length goKeywords" by simp
  with res show ?thesis by blast
qed

lemma aliasStep_inv: "aliasInv st \<Longrightarrow> aliasInv (aliasStep U st pth)"
proof -
  assume inv: "aliasInv st"
  obtain pm ln where st: "st = (pm, ln)" by (cases st)
  let ?c = "uniqueName ln (sanitize U (Base pth)) 0 (sanitize U (Base pth))"
  have free: "?c \<notin> set ln" "\<not> IsKeyword ?c"
    using uniqueName_not_taken [of ln "sanitize U (Base pth)" 0 "sanitize U (Base pth)"]
    by (simp_all add: taken_def)
  have step: "aliasStep U st pth = (pm(pth \<mapsto> ?c), ?c # ln)"
    by (simp add: aliasStep_def st Let_def)
  from inv st have old: "\<And>p a. pm p = Some a \<Longrightarrow> a \<in> set ln \<and> \<not> IsKeyword a"
    and inj: "\<And>p q a. pm p = Some a \<Longrightarrow> pm q = Some a \<Longrightarrow> p = q"
    by (auto simp: aliasInv_def)
  show ?thesis
    unfolding step aliasInv_def using free old inj
    by (auto split: if_splits)
qed

lemma allocLoop_inv: "aliasInv st \<Longrightarrow> aliasInv (foldl (aliasStep U) st im)"
  by (induction im arbitrary: st) (simp_all add: aliasStep_inv)

lemma allocAliases_inv: "aliasInv (allocAliases U im)"
  unfolding allocAliases_def by (rule allocLoop_inv) (simp add: aliasInv_def)

lemma allocLoop_dom: "dom (fst (foldl (aliasStep U) st im)) = dom (fst st) \<union> set im"
proof (induction im arbitrary: st)
  case Nil
  then show ?case by simp
next
  case (Cons p im)
  have "dom (fst (aliasStep U st p)) = insert p (dom (fst st))"
    by (cases st) (simp add: aliasStep_def Let_def)
  with Cons [of "aliasStep U st p"] show ?case by auto
qed

lemma allocAliases_dom: "dom (fst (allocAliases U im)) = set im"
  unfolding allocAliases_def using allocLoop_dom [of U "(Map.empty, [])" im] by simp

lemma allocLoop_untouched:
  "p \<notin> set im \<Longrightarrow> fst (foldl (aliasStep U) st im) p = fst st p"
proof (induction im arbitrary: st)
  case Nil
  then show ?case by simp
next
  case (Cons q im)
  then have "fst (aliasStep U st q) p = fst st p"
    by (cases st) (simp add: aliasStep_def Let_def)
  with Cons show ?case by simp
qed

text \<open>
  Claim C1.  Whatever paths the first loop of \<^verbatim>\<open>Generate\<close> visits and in whatever order,
  the resulting map from paths to aliases is injective, no alias is a keyword of Go, every
  path visited has an alias, and the alias of a path is the first of the candidates
  \<open>base, base0, base1, \<dots>\<close> (\<open>base\<close> the sanitized last element of the path) that is neither
  a keyword nor among the aliases allocated before the path was visited.
\<close>

theorem alias_resolution_injective:
  "(\<forall>p q a. fst (allocAliases U im) p = Some a \<and> fst (allocAliases U im) q = Some a
       \<longrightarrow> p = q)
   \<and> (\<forall>p a. fst (allocAliases U im) p = Some a \<longrightarrow> \<not> IsKeyword a)
   \<and> dom (fst (allocAliases U im)) = set im
   \<and> (\<forall>before pth after. im = before @ pth # after \<and> pth \<notin> set after \<longrightarrow>
        (\<exists>a. fst (allocAliases U im) pth = Some a
           \<and> \<not> taken (snd (allocAliases U before)) a
           \<and> (a = sanitize U (Base pth)
              \<or> taken (snd (allocAliases U before)) (sanitize U (Base pth))
               \<and> (\<exists>k. a = sanitize U (Base pth) @ Itoa k
                     \<and> (\<forall>j<k. taken (snd (allocAliases U before))
                                  (sanitize U (Base pth) @ Itoa j))))))"
proof -
  have inv: "aliasInv (allocAliases U im)" by (rule allocAliases_inv)
  obtain pm ln where res: "allocAliases U im = (pm, ln)" by (cases "allocAliases U im")
  from inv res have a: "\<forall>p q a. pm p = Some a \<and> pm q = Some a \<longrightarrow> p = q"
    and b: "\<forall>p a. pm p = Some a \<longrightarrow> \<not> IsKeyword a"
    by (auto simp: aliasInv_def)
  have c: "dom (fst (allocAliases U im)) = set im" by (rule allocAliases_dom)
  have d: "\<exists>a. fst (allocAliases U im) pth = Some a
           \<and> \<not> taken (snd (allocAliases U before)) a
           \<and> (a = sanitize U (Base pth)
              \<or> taken (snd (allocAliases U before)) (sanitize U (Base pth))
               \<and> (\<exists>k. a = sanitize U (Base pth) @ Itoa k
                     \<and> (\<forall>j<k. taken (snd (allocAliases U before))
                                  (sanitize U (Base pth) @ Itoa j))))"
    if split: "im = before @ pth # after" and last: "pth \<notin> set after" for before pth after
  proof -
    let ?st = "allocAliases U before"
    let ?base = "sanitize U (Base pth)"
    let ?a = "uniqueName (snd ?st) ?base 0 ?base"
    have "allocAliases U im = foldl (aliasStep U) (aliasStep U ?st pth) after"
      by (simp add: allocAliases_def split)
    then have "fst (allocAliases U im) pth = fst (aliasStep U ?st pth) pth"
      using allocLoop_untouched [OF last] by simp
    also have "\<dots> = Some ?a"
      by (cases ?st) (simp add: aliasStep_def Let_def)
    finally have look: "fst (allocAliases U im) pth = Some ?a" .
    have nt: "\<not> taken (snd ?st) ?a" by (rule uniqueName_not_taken)
    from uniqueName_first [of "snd ?st" ?base 0 ?base]
    have "?a = ?base \<or> taken (snd ?st) ?base
        \<and> (\<exists>k. ?a = ?base @ Itoa k \<and> (\<forall>j<k. taken (snd ?st) (?base @ Itoa j)))"
      by auto
    with look nt show ?thesis by blast
  qed
  from a b c d res show ?thesis by simp
qed

text \<open>
  The paths \<^verbatim>\<open>html/template\<close>, \<^verbatim>\<open>text/template\<close> and \<^verbatim>\<open>foo/case\<close>, visited in this
  order: the second \<^verbatim>\<open>template\<close> becomes \<^verbatim>\<open>template0\<close> and the keyword \<^verbatim>\<open>case\<close> becomes
  \<^verbatim>\<open>case0\<close>.
\<close>

theorem alias_resolution_injective_witness:
  "fst (allocAliases asciiOnly [str ''html/template'', str ''text/template'', str ''foo/case''])
       (str ''html/template'') = Some (str ''template'')
   \<and> fst (allocAliases asciiOnly [str ''html/template'', str ''text/template'', str ''foo/case''])
       (str ''text/template'') = Some (str ''template0'')
   \<and> fst (allocAliases asciiOnly [str ''html/template'', str ''text/template'', str ''foo/case''])
       (str ''foo/case'') = Some (str ''case0'')
   \<and> str ''html/template'' \<noteq> str ''text/template''
   \<and> str ''template'' \<noteq> str ''template0''
   \<and> \<not> IsKeyword (str ''case0'') \<and> IsKeyword (str ''case'')
   \<and> taken (snd (allocAliases asciiOnly [str ''html/template''])) (str ''template'')"
proof -
  let ?im = "[str ''html/template'', str ''text/template'', str ''foo/case'']"
  let ?pm = "fst (allocAliases asciiOnly ?im)"
  have e1: "?pm (str ''html/template'') = Some (str ''template'')" by code_simp
  have e2: "?pm (str ''text/template'') = Some (str ''template0'')" by code_simp
  have e3: "?pm (str ''foo/case'') = Some (str ''case0'')" by code_simp
  have ne: "str ''html/template'' \<noteq> str ''text/template''" by (simp add: str_def)
  have kw: "IsKeyword (str ''case'')" by code_simp
  have tk: "taken (snd (allocAliases asciiOnly [str ''html/template''])) (str ''template'')"
    by code_simp
  note inst = alias_resolution_injective [of asciiOnly ?im]
  from inst e1 e2 ne have d: "str ''template'' \<noteq> str ''template0''"
    by metis
  from inst e3 have k0: "\<not> IsKeyword (str ''case0'')" by blast
  from e1 e2 e3 ne d k0 kw tk show ?thesis by blast
qed

section \<open>Properties of OutputFilePath\<close>

lemma TrimSuffix_append: "TrimSuffix (stem @ suffix) suffix = stem"
  by (simp add: TrimSuffix_def)

text \<open>
  Claim C9, as the code has it.  The destination is the override whenever that is not empty.
  Otherwise, in single-file mode, it is the output directory joined with \<^verbatim>\<open>mock_\<close>, the first
  argument as given with a trailing \<^verbatim>\<open>.go\<close> removed, and \<^verbatim>\<open>_test.go\<close>; the first argument
  is not reduced to its base name.  In the other mode it is the output directory joined with
  \<^verbatim>\<open>mock_\<close>, the lower-cased last argument and \<^verbatim>\<open>_test.go\<close>.  Without an override and
  without arguments the function panics.
\<close>

theorem OutputFilePath_cases:
  "(ovr \<noteq> [] \<longrightarrow> OutputFilePath SM J U args dir ovr = Inr ovr)
   \<and> (ovr = [] \<and> SM args \<and> args \<noteq> [] \<longrightarrow>
        OutputFilePath SM J U args dir ovr =
          Inr (J [dir, str ''mock_'' @ TrimSuffix (hd args) (str ''.go'') @ str ''_test.go'']))
   \<and> (ovr = [] \<and> SM [stem @ str ''.go''] \<longrightarrow>
        OutputFilePath SM J U [stem @ str ''.go''] dir ovr =
          Inr (J [dir, str ''mock_'' @ stem @ str ''_test.go'']))
   \<and> (ovr = [] \<and> \<not> SM args \<and> args \<noteq> [] \<longrightarrow>
        OutputFilePath SM J U args dir ovr =
          Inr (J [dir, str ''mock_'' @ ToLower U (last args) @ str ''_test.go'']))
   \<and> (ovr = [] \<and> args = [] \<longrightarrow> OutputFilePath SM J U args dir ovr = Inl IndexOutOfRange)"
proof -
  have a: "ovr \<noteq> [] \<longrightarrow> OutputFilePath SM J U args dir ovr = Inr ovr"
    by (simp add: OutputFilePath_def)
  have b: "ovr = [] \<and> SM args \<and> args \<noteq> [] \<longrightarrow>
        OutputFilePath SM J U args dir ovr =
          Inr (J [dir, str ''mock_'' @ TrimSuffix (hd args) (str ''.go'') @ str ''_test.go''])"
    by (cases args) (simp_all add: OutputFilePath_def)
  have c: "ovr = [] \<and> SM [stem @ str ''.go''] \<longrightarrow>
        OutputFilePath SM J U [stem @ str ''.go''] dir ovr =
          Inr (J [dir, str ''mock_'' @ stem @ str ''_test.go''])"
    by (simp add: OutputFilePath_def TrimSuffix_append)
  have d: "ovr = [] \<and> \<not> SM args \<and> args \<noteq> [] \<longrightarrow>
        OutputFilePath SM J U args dir ovr =
          Inr (J [dir, str ''mock_'' @ ToLower U (last args) @ str ''_test.go''])"
    by (simp add: OutputFilePath_def)
  have e: "ovr = [] \<and> args = [] \<longrightarrow> OutputFilePath SM J U args dir ovr = Inl IndexOutOfRange"
    by (simp add: OutputFilePath_def)
  from a b c d e show ?thesis by blast
qed

theorem OutputFilePath_cases_witness:
  "OutputFilePath sourceModeOneArg joinSlash asciiOnly [str ''foo.go''] (str ''out'') (str ''x.go'')
     = Inr (str ''x.go'')
   \<and> OutputFilePath sourceModeOneArg joinSlash asciiOnly [str ''foo.go''] (str ''out'') []
     = Inr (str ''out/mock_foo_test.go'')
   \<and> OutputFilePath sourceModeOneArg joinSlash asciiOnly [str ''io'', str ''Reader,Writer'']
       (str ''out'') []
     = Inr (str ''out/mock_reader,writer_test.go'')
   \<and> OutputFilePath sourceModeOneArg joinSlash asciiOnly [] (str ''out'') []
     = Inl IndexOutOfRange"
proof -
  have ovr: "str ''x.go'' \<noteq> []" by (simp add: str_def)
  have sm1: "sourceModeOneArg [str ''foo'' @ str ''.go'']"
    by (simp add: sourceModeOneArg_def)
  have sm2: "\<not> sourceModeOneArg [str ''io'', str ''Reader,Writer'']"
    by (simp add: sourceModeOneArg_def)
  have foo: "str ''foo.go'' = str ''foo'' @ str ''.go''" by (simp add: str_def)
  have j1: "joinSlash [str ''out'', str ''mock_'' @ str ''foo'' @ str ''_test.go'']
      = str ''out/mock_foo_test.go''"
    by (simp add: joinSlash_def str_def)
  have j2: "joinSlash [str ''out'',
        str ''mock_'' @ ToLower asciiOnly (last [str ''io'', str ''Reader,Writer''])
          @ str ''_test.go'']
      = str ''out/mock_reader,writer_test.go''"
    by (simp add: joinSlash_def str_def ToLower_def ToLowerRune_def)
  from OutputFilePath_cases [where ovr = "str ''x.go''" and SM = sourceModeOneArg
      and J = joinSlash and U = asciiOnly and args = "[str ''foo.go'']" and dir = "str ''out''"]
    ovr
  have a: "OutputFilePath sourceModeOneArg joinSlash asciiOnly [str ''foo.go''] (str ''out'')
      (str ''x.go'') = Inr (str ''x.go'')"
    by blast
  from OutputFilePath_cases [where ovr = "[]" and SM = sourceModeOneArg and J = joinSlash
      and U = asciiOnly and stem = "str ''foo''" and dir = "str ''out''"] sm1 j1 foo
  have b: "OutputFilePath sourceModeOneArg joinSlash asciiOnly [str ''foo.go''] (str ''out'') []
      = Inr (str ''out/mock_foo_test.go'')"
    by simp
  from OutputFilePath_cases [where ovr = "[]" and SM = sourceModeOneArg and J = joinSlash
      and U = asciiOnly and args = "[str ''io'', str ''Reader,Writer'']"
      and dir = "str ''out''"] sm2 j2
  have c: "OutputFilePath sourceModeOneArg joinSlash asciiOnly
      [str ''io'', str ''Reader,Writer''] (str ''out'') []
      = Inr (str ''out/mock_reader,writer_test.go'')"
    by simp
  from OutputFilePath_cases [where ovr = "[]" and SM = sourceModeOneArg and J = joinSlash
      and U = asciiOnly and args = "[]" and dir = "str ''out''"]
  have d: "OutputFilePath sourceModeOneArg joinSlash asciiOnly [] (str ''out'') []
      = Inl IndexOutOfRange"
    by blast
  from a b c d show ?thesis by blast
qed

text \<open>
  An input file given with a directory: the code keeps the directory inside the file name,
  where the base name \<^verbatim>\<open>foo.go\<close> would give \<^verbatim>\<open>out/mock_foo_test.go\<close>.
\<close>

theorem OutputFilePath_cases_counterexample:
  "OutputFilePath sourceModeOneArg joinSlash asciiOnly [str ''sub/foo.go''] (str ''out'') []
     = Inr (str ''out/mock_sub/foo_test.go'')
   \<and> joinSlash [str ''out'',
        str ''mock_'' @ TrimSuffix (Base (str ''sub/foo.go'')) (str ''.go'') @ str ''_test.go'']
     = str ''out/mock_foo_test.go''
   \<and> OutputFilePath sourceModeOneArg joinSlash asciiOnly [str ''sub/foo.go''] (str ''out'') []
     \<noteq> Inr (joinSlash [str ''out'',
        str ''mock_'' @ TrimSuffix (Base (str ''sub/foo.go'')) (str ''.go'') @ str ''_test.go''])"
  by (simp add: OutputFilePath_def sourceModeOneArg_def joinSlash_def TrimSuffix_def Base_def
      str_def)

section \<open>Printing: basic facts\<close>

lemma steps_Nil: "steps [] g = g"
  by (simp add: steps_def)

lemma steps_Cons: "steps (f # fs) g = steps fs (f g)"
  by (simp add: steps_def)

lemma g_p_simps [simp]:
  "buf (g_p s g) = buf g @ indent g @ s @ [10]"
  "indent (g_p s g) = indent g"
  "packageMap (g_p s g) = packageMap g"
  by (simp_all add: g_p_def)

lemma g_in_simps [simp]:
  "buf (g_in g) = buf g"
  "indent (g_in g) = indent g @ [9]"
  "packageMap (g_in g) = packageMap g"
  by (simp_all add: g_in_def)

lemma g_out_simps [simp]:
  "buf (g_out g) = buf g"
  "indent (g_out g) = butlast (indent g)"
  "packageMap (g_out g) = packageMap g"
  by (simp_all add: g_out_def)

lemma frameI: "(\<And>g b. f (g\<lparr>buf := b @ buf g\<rparr>) = (f g)\<lparr>buf := b @ buf (f g)\<rparr>) \<Longrightarrow> frame f"
  by (simp add: frame_def)

lemma frameD: "frame f \<Longrightarrow> f (g\<lparr>buf := b @ buf g\<rparr>) = (f g)\<lparr>buf := b @ buf (f g)\<rparr>"
  by (simp add: frame_def)

lemma frame_g_p [simp]: "frame (g_p s)"
  by (simp add: frame_def g_p_def)

lemma frame_g_in [simp]: "frame g_in"
  by (simp add: frame_def g_in_def)

lemma frame_g_out [simp]: "frame g_out"
  by (simp add: frame_def g_out_def)

lemma frame_id [simp]: "frame (\<lambda>h. h)"
  by (simp add: frame_def)

lemma frame_steps [simp]: "(\<forall>f\<in>set fs. frame f) \<Longrightarrow> frame (steps fs)"
proof (induction fs)
  case Nil
  then show ?case by (simp add: frame_def steps_Nil)
next
  case (Cons f fs)
  then have f: "frame f" and fs: "frame (steps fs)" by simp_all
  show ?case
  proof (rule frameI)
    fix g b
    have "steps (f # fs) (g\<lparr>buf := b @ buf g\<rparr>) = steps fs ((f g)\<lparr>buf := b @ buf (f g)\<rparr>)"
      by (simp add: steps_Cons frameD [OF f])
    also have "\<dots> = (steps fs (f g))\<lparr>buf := b @ buf (steps fs (f g))\<rparr>"
      by (rule frameD [OF fs])
    finally show "steps (f # fs) (g\<lparr>buf := b @ buf g\<rparr>)
        = (steps (f # fs) g)\<lparr>buf := b @ buf (steps (f # fs) g)\<rparr>"
      by (simp add: steps_Cons)
  qed
qed

lemma frame_if [simp]: "frame f \<Longrightarrow> frame (\<lambda>h. if c then f h else h)"
  by (simp add: frame_def)

lemma getStuff_buf [simp]: "getStuff tstr m (g\<lparr>buf := b\<rparr>) ov = getStuff tstr m g ov"
  by (simp add: getStuff_def Let_def split: option.split)


lemma frame_GenerateMockMethod [simp]: "frame (GenerateMockMethod tstr mt m ov)"
proof (rule frameI)
  fix g b
  obtain args argNames argString returnTypes retString callArgs where
    st: "getStuff tstr m g ov = (args, argNames, argString, returnTypes, retString, callArgs)"
    by (cases "getStuff tstr m g ov")
  show "GenerateMockMethod tstr mt m ov (g\<lparr>buf := b @ buf g\<rparr>) =
      (GenerateMockMethod tstr mt m ov g)\<lparr>buf := b @ buf (GenerateMockMethod tstr mt m ov g)\<rparr>"
    unfolding GenerateMockMethod_def getStuff_buf st prod.case Let_def
    by (rule frameD) (simp add: split_beta)
qed


lemma tabs_simps [simp]: "tabs 0 = []" "tabs (Suc n) = 9 # tabs n" "length (tabs n) = n"
  by (simp_all add: tabs_def)

lemma tabs_snoc: "tabs n @ [9] = tabs (Suc n)"
  by (simp add: tabs_def replicate_append_same)

lemma butlast_tabs: "butlast (ind @ tabs (Suc n)) = ind @ tabs n"
  using butlast_snoc [of "ind @ tabs n" 9] by (simp add: tabs_snoc del: tabs_simps(2))

lemma upt_Suc_shift: "[0..<Suc n] = 0 # map Suc [0..<n]"
  by (simp add: upt_conv_Cons map_Suc_upt del: upt_Suc)

lemma loop_print:
  "steps (map (\<lambda>(i, x). g_p (F i x)) (enumerate k xs)) g =
     g\<lparr>buf := buf g
        @ concat (map (\<lambda>n. indent g @ F (k + n) (xs ! n) @ [10]) [0..<length xs])\<rparr>"
proof (induction xs arbitrary: g k)
  case Nil
  then show ?case by (simp add: steps_Nil)
next
  case (Cons x xs)
  have step: "steps (map (\<lambda>(i, x). g_p (F i x)) (enumerate k (x # xs))) g =
      steps (map (\<lambda>(i, x). g_p (F i x)) (enumerate (Suc k) xs)) (g_p (F k x) g)"
    by (simp add: steps_Cons)
  show ?case
    unfolding step Cons.IH
    by (simp add: upt_Suc_shift comp_def g_p_def del: upt_Suc)
qed

lemma loop_guarded:
  "steps (map (\<lambda>(i, x). steps [g_p (A i x), g_in, g_p (B i x), g_p C]) (enumerate k xs)) g =
     g\<lparr>buf := buf g
        @ concat (map (\<lambda>n. indent g @ tabs n @ A (k + n) (xs ! n) @ [10]
                          @ indent g @ tabs (Suc n) @ B (k + n) (xs ! n) @ [10]
                          @ indent g @ tabs (Suc n) @ C @ [10]) [0..<length xs]),
       indent := indent g @ tabs (length xs)\<rparr>"
proof (induction xs arbitrary: g k)
  case Nil
  then show ?case by (simp add: steps_Nil)
next
  case (Cons x xs)
  let ?body = "\<lambda>(i, x). steps [g_p (A i x), g_in, g_p (B i x), g_p C]"
  have step: "steps (map ?body (enumerate k (x # xs))) g =
      steps (map ?body (enumerate (Suc k) xs)) (steps [g_p (A k x), g_in, g_p (B k x), g_p C] g)"
    by (simp add: steps_Cons)
  show ?case
    unfolding step Cons.IH
    by (simp add: upt_Suc_shift comp_def steps_Cons steps_Nil g_p_def g_in_def del: upt_Suc)
qed

lemma map_enumerate_nth:
  "map (\<lambda>(i, x). F i x) (enumerate k xs) = map (\<lambda>n. F (k + n) (xs ! n)) [0..<length xs]"
proof (induction xs arbitrary: k)
  case Nil
  then show ?case by simp
next
  case (Cons x xs)
  then show ?case by (simp add: upt_Suc_shift comp_def del: upt_Suc)
qed


lemma tabs_Cons_shift: "tabs n @ 9 # xs = 9 # tabs n @ xs"
  by (simp add: tabs_def replicate_app_Cons_same)

lemma butlast_indent: "butlast (ind @ 9 # tabs n) = ind @ tabs n"
  using butlast_tabs [of ind n] by simp

lemma butlast_indent2: "butlast (ind @ 9 # 9 # tabs n) = ind @ 9 # tabs n"
  using butlast_indent [of "ind @ [9]" n] by simp

lemma GenerateMockMethod_buf:
  "buf (GenerateMockMethod tstr mt m ov g) =
     (case getStuff tstr m g ov of
        (args, argNames, argString, rets, retString, callArgs) \<Rightarrow>
          buf g
          @ indent g @ str ''func (mock *'' @ mt @ str '') '' @ MethodName m
              @ str ''('' @ argString @ str '')'' @ retString @ str '' {'' @ [10]
          @ indent g @ tabs 1 @ str ''params := []pegomock.Param{'' @ callArgs @ str ''}'' @ [10]
          @ indent g @ tabs 1 @ (if Out m \<noteq> [] then str ''result :='' else [])
              @ str '' pegomock.GetGenericMockFrom(mock).Invoke('' @ quoteMark
              @ MethodName m @ quoteMark @ str '', params, ''
              @ boolStr (Variadic m \<noteq> None) @ str '', []reflect.Type{''
              @ Join (map (\<lambda>t. str ''reflect.TypeOf((*'' @ t @ str '')(nil)).Elem()'') rets)
                  (str '', '')
              @ str ''})'' @ [10]
          @ (if Out m \<noteq> [] then
               concat (map (\<lambda>n. indent g @ tabs 1 @ str ''var ret'' @ Itoa n @ str '' ''
                                  @ rets ! n @ [10]) [0..<length rets])
               @ indent g @ tabs 1 @ str ''if len(result) != 0 {'' @ [10]
               @ concat (map (\<lambda>n.
                     indent g @ tabs (n + 2) @ str ''if result['' @ Itoa n
                       @ str ''] != nil {'' @ [10]
                     @ indent g @ tabs (n + 3) @ str ''ret'' @ Itoa n @ str ''  = result[''
                       @ Itoa n @ str ''].('' @ rets ! n @ str '')'' @ [10]
                     @ indent g @ tabs (n + 3) @ str ''}'' @ [10]) [0..<length rets])
               @ indent g @ tabs (length rets + 1) @ str ''}'' @ [10]
               @ indent g @ tabs (length rets + 1) @ str ''return ''
                   @ Join (map (\<lambda>n. str ''ret'' @ Itoa n) [0..<length rets]) (str '', '') @ [10]
             else [])
          @ indent g @ tabs (length rets) @ str ''}'' @ [10])"
proof -
  obtain args argNames argString rets retString callArgs where
    st: "getStuff tstr m g ov = (args, argNames, argString, rets, retString, callArgs)"
    by (cases "getStuff tstr m g ov")
  have len: "length rets = length (Out m)"
    using st by (auto simp: getStuff_def Let_def)
  show ?thesis
  proof (cases "Out m = []")
    case True
    with len have "rets = []" by simp
    with True show ?thesis
      unfolding GenerateMockMethod_def st prod.case Let_def
      by (simp add: steps_Cons steps_Nil g_out_def)
  next
    case False
    with len have ne: "rets \<noteq> []" by auto
    have names: "map (\<lambda>(i, returnType). str ''ret'' @ Itoa i) (enumerate 0 rets)
        = map (\<lambda>n. str ''ret'' @ Itoa n) [0..<length rets]"
      using map_enumerate_nth [of "\<lambda>i x. str ''ret'' @ Itoa i" 0 rets] by simp
    from False show ?thesis
      unfolding GenerateMockMethod_def st prod.case Let_def names
      by (simp add: steps_Cons steps_Nil loop_print loop_guarded g_out_def g_p_def g_in_def
          tabs_Cons_shift butlast_indent butlast_indent2 numeral_3_eq_3 numeral_2_eq_2
          del: butlast_append butlast.simps)
  qed
qed

section \<open>Properties of getStuff and GenerateMockMethod\<close>

text \<open>What \<^verbatim>\<open>getStuff\<close> returns, with its loops written as maps over the positions.\<close>

lemma getStuff_eq:
  "getStuff tstr m g ov =
     (let T = (\<lambda>p. tstr (ParamType p) (packageMap g) ov);
          N = length (In m);
          args = map (\<lambda>n. paramName n (In m ! n) @ str '' '' @ T (In m ! n)) [0..<N]
                   @ (case Variadic m of None \<Rightarrow> []
                      | Some v \<Rightarrow> [paramName N v @ str '' ...'' @ T v]);
          argNames = map (\<lambda>n. paramName n (In m ! n)) [0..<N]
                       @ (case Variadic m of None \<Rightarrow> [] | Some v \<Rightarrow> [paramName N v]);
          rets = map T (Out m)
      in (args, argNames, Join args (str '', ''), rets,
          (if length (Out m) = 0 then []
           else if length (Out m) = 1 then
             (if T (hd (Out m)) = [] then [] else str '' '' @ T (hd (Out m)))
           else str '' ('' @ Join rets (str '', '') @ str '')''),
          Join argNames (str '', '')))"
proof -
  have a: "map (\<lambda>(i, p). paramName i p @ str '' '' @ tstr (ParamType p) (packageMap g) ov)
             (enumerate 0 (In m))
      = map (\<lambda>n. paramName n (In m ! n) @ str '' ''
                    @ tstr (ParamType (In m ! n)) (packageMap g) ov) [0..<length (In m)]"
    using map_enumerate_nth
      [of "\<lambda>i p. paramName i p @ str '' '' @ tstr (ParamType p) (packageMap g) ov" 0 "In m"]
    by simp
  have b: "map (\<lambda>(i, p). paramName i p) (enumerate 0 (In m))
      = map (\<lambda>n. paramName n (In m ! n)) [0..<length (In m)]"
    using map_enumerate_nth [of "\<lambda>i p. paramName i p" 0 "In m"] by simp
  have sp: "str '' '' \<noteq> []" "str ''('' \<noteq> []" by (simp_all add: str_def)
  show ?thesis
  proof (cases "Out m")
    case Nil
    then show ?thesis
      unfolding getStuff_def a b Let_def by (simp split: option.split)
  next
    case (Cons p ps)
    then show ?thesis
      unfolding getStuff_def a b Let_def
      by (cases ps) (simp_all add: str_def split: option.split)
  qed
qed


lemma nth_map_upt: "n \<in> set [0..<length xs] \<Longrightarrow> map f xs ! n = f (xs ! n)"
  by simp

text \<open>
  Claim C4.  For a method with \<open>N\<close> inputs and \<open>M\<close> outputs the signature line of the
  recording stub lists exactly \<open>N\<close> parameters \<^verbatim>\<open>name type\<close> in order, followed by the
  variadic parameter \<^verbatim>\<open>name ...type\<close> if one is declared, joined by commas; its return
  clause is built from exactly \<open>M\<close> types in order, is empty for \<open>M = 0\<close>, is the single type
  after a space for \<open>M = 1\<close>, and is the parenthesised comma-separated list for \<open>M > 1\<close>.
  Where no type prints as the empty string, the clause is absent if and only if \<open>M = 0\<close>.
\<close>

theorem stub_arity:
  "(case getStuff tstr m g ov of
      (args, argNames, argString, rets, retString, argNamesString) \<Rightarrow>
        length args = length (In m) + (case Variadic m of None \<Rightarrow> 0 | Some v \<Rightarrow> 1)
      \<and> (\<forall>n<length (In m). args ! n = paramName n (In m ! n) @ str '' ''
                                 @ tstr (ParamType (In m ! n)) (packageMap g) ov)
      \<and> (\<forall>v. Variadic m = Some v \<longrightarrow>
             last args = paramName (length (In m)) v @ str '' ...''
                           @ tstr (ParamType v) (packageMap g) ov)
      \<and> argString = Join args (str '', '')
      \<and> length rets = length (Out m)
      \<and> (\<forall>n<length (Out m). rets ! n = tstr (ParamType (Out m ! n)) (packageMap g) ov)
      \<and> (length (Out m) = 0 \<longrightarrow> retString = [])
      \<and> (length (Out m) = 1 \<longrightarrow> retString = (if hd rets = [] then [] else str '' '' @ hd rets))
      \<and> (length (Out m) > 1 \<longrightarrow> retString = str '' ('' @ Join rets (str '', '') @ str '')'')
      \<and> ((\<forall>t\<in>set rets. t \<noteq> []) \<longrightarrow> (retString = [] \<longleftrightarrow> length (Out m) = 0))
      \<and> (\<exists>body. buf (GenerateMockMethod tstr mt m ov g) =
             buf g @ indent g @ str ''func (mock *'' @ mt @ str '') '' @ MethodName m
               @ str ''('' @ argString @ str '')'' @ retString @ str '' {'' @ [10] @ body))"
proof -
  obtain args argNames argString rets retString callArgs where
    st: "getStuff tstr m g ov = (args, argNames, argString, rets, retString, callArgs)"
    by (cases "getStuff tstr m g ov")
  let ?T = "\<lambda>p. tstr (ParamType p) (packageMap g) ov"
  let ?N = "length (In m)"
  from st have args: "args = map (\<lambda>n. paramName n (In m ! n) @ str '' '' @ ?T (In m ! n)) [0..<?N]
                   @ (case Variadic m of None \<Rightarrow> []
                      | Some v \<Rightarrow> [paramName ?N v @ str '' ...'' @ ?T v])"
    and argString: "argString = Join args (str '', '')"
    and rets: "rets = map ?T (Out m)"
    and retString: "retString = (if length (Out m) = 0 then []
           else if length (Out m) = 1 then
             (if ?T (hd (Out m)) = [] then [] else str '' '' @ ?T (hd (Out m)))
           else str '' ('' @ Join rets (str '', '') @ str '')'')"
    unfolding getStuff_eq Let_def by auto
  have 1: "length args = ?N + (case Variadic m of None \<Rightarrow> 0 | Some v \<Rightarrow> 1)"
    by (simp add: args split: option.split)
  have 2: "\<forall>n<?N. args ! n = paramName n (In m ! n) @ str '' '' @ ?T (In m ! n)"
    by (simp add: args nth_append)
  have 3: "\<forall>v. Variadic m = Some v \<longrightarrow> last args = paramName ?N v @ str '' ...'' @ ?T v"
    by (simp add: args)
  have 5: "length rets = length (Out m)" by (simp add: rets)
  have 6: "\<forall>n<length (Out m). rets ! n = ?T (Out m ! n)" by (simp add: rets)
  have 7: "length (Out m) = 0 \<longrightarrow> retString = []" by (simp add: retString)
  have 8: "length (Out m) = 1 \<longrightarrow> retString = (if hd rets = [] then [] else str '' '' @ hd rets)"
    by (cases "Out m") (simp_all add: retString rets)
  have 9: "length (Out m) > 1 \<longrightarrow> retString = str '' ('' @ Join rets (str '', '') @ str '')''"
    by (simp add: retString)
  have 10: "(\<forall>t\<in>set rets. t \<noteq> []) \<longrightarrow> (retString = [] \<longleftrightarrow> length (Out m) = 0)"
  proof
    assume ne: "\<forall>t\<in>set rets. t \<noteq> []"
    show "retString = [] \<longleftrightarrow> length (Out m) = 0"
    proof (cases "Out m")
      case Nil
      then show ?thesis by (simp add: retString)
    next
      case (Cons p ps)
      with ne rets have "?T p \<noteq> []" by simp
      with Cons show ?thesis by (simp add: retString str_def)
    qed
  qed
  have 11: "\<exists>body. buf (GenerateMockMethod tstr mt m ov g) =
             buf g @ indent g @ str ''func (mock *'' @ mt @ str '') '' @ MethodName m
               @ str ''('' @ argString @ str '')'' @ retString @ str '' {'' @ [10] @ body"
    unfolding GenerateMockMethod_buf st prod.case by (simp del: tabs_simps)
  from 1 2 3 argString 5 6 7 8 9 10 11 show ?thesis
    unfolding st prod.case by blast
qed


theorem stub_arity_witness:
  "getStuff textType pairMethod newGenerator [] =
     ([], [], [], [str ''int'', str ''error''], str '' (int, error)'', [])
   \<and> getStuff textType logMethod newGenerator [] =
     ([str ''format string'', str ''args ...string''], [str ''format'', str ''args''],
      str ''format string, args ...string'', [], [], str ''format, args'')
   \<and> getStuff textType greetMethod newGenerator [] =
     ([str ''name string''], [str ''name''], str ''name string'', [str ''string''],
      str '' string'', str ''name'')
   \<and> str ''int'' \<noteq> [] \<and> str ''error'' \<noteq> []
   \<and> str '' (int, error)'' \<noteq> []
   \<and> (\<exists>body. buf (GenerateMockMethod textType (str ''MockT'') pairMethod [] newGenerator) =
         str ''func (mock *MockT) Pair() (int, error) {'' @ [10] @ body)"
proof -
  have p: "getStuff textType pairMethod newGenerator [] =
     ([], [], [], [str ''int'', str ''error''], str '' (int, error)'', [])"
    by code_simp
  have l: "getStuff textType logMethod newGenerator [] =
     ([str ''format string'', str ''args ...string''], [str ''format'', str ''args''],
      str ''format string, args ...string'', [], [], str ''format, args'')"
    by code_simp
  have g: "getStuff textType greetMethod newGenerator [] =
     ([str ''name string''], [str ''name''], str ''name string'', [str ''string''],
      str '' string'', str ''name'')"
    by code_simp
  have ne: "\<forall>t\<in>set [str ''int'', str ''error'']. t \<noteq> []" by (simp add: str_def)
  have out: "length (Out pairMethod) = 2" "MethodName pairMethod = str ''Pair''"
    by (simp_all add: pairMethod_def)
  note inst = stub_arity [where tstr = textType and m = pairMethod and g = newGenerator
      and ov = "[]" and mt = "str ''MockT''", unfolded p prod.case]
  from inst ne out have a: "str '' (int, error)'' \<noteq> []" by auto
  from inst out
  have b: "\<exists>body. buf (GenerateMockMethod textType (str ''MockT'') pairMethod [] newGenerator) =
         str ''func (mock *MockT) Pair() (int, error) {'' @ [10] @ body"
    by (simp add: newGenerator_def str_def)
  have ne2: "str ''int'' \<noteq> []" "str ''error'' \<noteq> []" by (simp_all add: str_def)
  from p l g ne2 a b show ?thesis by blast
qed

text \<open>
  Claim C2, as the code has it.  In the recording stub of a method with a variadic parameter
  the parameter list handed to \<^verbatim>\<open>Invoke\<close> is a literal of exactly \<open>N + 1\<close> elements: the
  names of the \<open>N\<close> declared inputs and, as one last element, the name of the variadic
  parameter, whatever number of arguments a call supplies; the stub tells the recorder that
  the call is variadic by passing \<^verbatim>\<open>true\<close>.
\<close>

theorem variadic_passed_as_one_element:
  assumes "Variadic m = Some v"
  shows "case getStuff tstr m g ov of
      (args, argNames, argString, rets, retString, callArgs) \<Rightarrow>
        argNames = map (\<lambda>n. paramName n (In m ! n)) [0..<length (In m)]
                     @ [paramName (length (In m)) v]
      \<and> length argNames = length (In m) + 1
      \<and> callArgs = Join argNames (str '', '')
      \<and> (\<exists>rest. buf (GenerateMockMethod tstr mt m ov g) =
            buf g
            @ indent g @ str ''func (mock *'' @ mt @ str '') '' @ MethodName m
                @ str ''('' @ argString @ str '')'' @ retString @ str '' {'' @ [10]
            @ indent g @ tabs 1 @ str ''params := []pegomock.Param{'' @ callArgs
                @ str ''}'' @ [10]
            @ indent g @ tabs 1 @ (if Out m \<noteq> [] then str ''result :='' else [])
                @ str '' pegomock.GetGenericMockFrom(mock).Invoke('' @ quoteMark
                @ MethodName m @ quoteMark @ str '', params, true, []reflect.Type{''
                @ Join (map (\<lambda>t. str ''reflect.TypeOf((*'' @ t @ str '')(nil)).Elem()'') rets)
                    (str '', '')
                @ str ''})'' @ [10]
            @ rest)"
proof -
  obtain args argNames argString rets retString callArgs where
    st: "getStuff tstr m g ov = (args, argNames, argString, rets, retString, callArgs)"
    by (cases "getStuff tstr m g ov")
  from st assms have argNames: "argNames =
      map (\<lambda>n. paramName n (In m ! n)) [0..<length (In m)] @ [paramName (length (In m)) v]"
    and callArgs: "callArgs = Join argNames (str '', '')"
    unfolding getStuff_eq Let_def by auto
  have len: "length argNames = length (In m) + 1" by (simp add: argNames)
  have emitted: "\<exists>rest. buf (GenerateMockMethod tstr mt m ov g) =
            buf g
            @ indent g @ str ''func (mock *'' @ mt @ str '') '' @ MethodName m
                @ str ''('' @ argString @ str '')'' @ retString @ str '' {'' @ [10]
            @ indent g @ tabs 1 @ str ''params := []pegomock.Param{'' @ callArgs
                @ str ''}'' @ [10]
            @ indent g @ tabs 1 @ (if Out m \<noteq> [] then str ''result :='' else [])
                @ str '' pegomock.GetGenericMockFrom(mock).Invoke('' @ quoteMark
                @ MethodName m @ quoteMark @ str '', params, true, []reflect.Type{''
                @ Join (map (\<lambda>t. str ''reflect.TypeOf((*'' @ t @ str '')(nil)).Elem()'') rets)
                    (str '', '')
                @ str ''})'' @ [10]
            @ rest"
    unfolding GenerateMockMethod_buf st prod.case
    using assms by (simp add: boolStr_def str_def del: tabs_simps)
  from argNames len callArgs emitted show ?thesis
    unfolding st prod.case by blast
qed

theorem variadic_passed_as_one_element_witness:
  "Variadic logMethod = Some \<lparr> ParamName = str ''args'', ParamType = str ''string'' \<rparr>
   \<and> getStuff textType logMethod newGenerator [] =
     ([str ''format string'', str ''args ...string''], [str ''format'', str ''args''],
      str ''format string, args ...string'', [], [], str ''format, args'')
   \<and> (\<exists>rest. buf (GenerateMockMethod textType (str ''MockLogger'') logMethod [] newGenerator) =
         str ''func (mock *MockLogger) Log(format string, args ...string) {'' @ [10]
         @ [9] @ str ''params := []pegomock.Param{format, args}'' @ [10]
         @ [9] @ str '' pegomock.GetGenericMockFrom(mock).Invoke('' @ quoteMark @ str ''Log''
             @ quoteMark @ str '', params, true, []reflect.Type{})'' @ [10]
         @ rest)"
proof -
  have v: "Variadic logMethod = Some \<lparr> ParamName = str ''args'', ParamType = str ''string'' \<rparr>"
    by (simp add: logMethod_def)
  have l: "getStuff textType logMethod newGenerator [] =
     ([str ''format string'', str ''args ...string''], [str ''format'', str ''args''],
      str ''format string, args ...string'', [], [], str ''format, args'')"
    by code_simp
  have o: "Out logMethod = []" "MethodName logMethod = str ''Log''"
    by (simp_all add: logMethod_def)
  from variadic_passed_as_one_element [OF v, where tstr = textType and g = newGenerator
      and ov = "[]" and mt = "str ''MockLogger''", unfolded l prod.case]
  obtain rest where
    eq: "buf (GenerateMockMethod textType (str ''MockLogger'') logMethod [] newGenerator) =
            buf newGenerator
            @ indent newGenerator @ str ''func (mock *'' @ str ''MockLogger'' @ str '') ''
                @ MethodName logMethod
                @ str ''('' @ str ''format string, args ...string'' @ str '')'' @ []
                @ str '' {'' @ [10]
            @ indent newGenerator @ tabs 1 @ str ''params := []pegomock.Param{''
                @ str ''format, args'' @ str ''}'' @ [10]
            @ indent newGenerator @ tabs 1
                @ (if Out logMethod \<noteq> [] then str ''result :='' else [])
                @ str '' pegomock.GetGenericMockFrom(mock).Invoke('' @ quoteMark
                @ MethodName logMethod @ quoteMark @ str '', params, true, []reflect.Type{''
                @ Join (map (\<lambda>t. str ''reflect.TypeOf((*'' @ t @ str '')(nil)).Elem()'') [])
                    (str '', '')
                @ str ''})'' @ [10]
            @ rest"
    by blast
  have "buf (GenerateMockMethod textType (str ''MockLogger'') logMethod [] newGenerator) =
         str ''func (mock *MockLogger) Log(format string, args ...string) {'' @ [10]
         @ [9] @ str ''params := []pegomock.Param{format, args}'' @ [10]
         @ [9] @ str '' pegomock.GetGenericMockFrom(mock).Invoke('' @ quoteMark @ str ''Log''
             @ quoteMark @ str '', params, true, []reflect.Type{})'' @ [10]
         @ rest"
    unfolding eq by (simp add: newGenerator_def o str_def)
  with v l show ?thesis by blast
qed

text \<open>
  The whole stub of \<^verbatim>\<open>Log(format string, args ...string)\<close>: the slice \<^verbatim>\<open>args\<close> is one
  element of the parameter list, and no statement unpacks it.
\<close>

theorem variadic_individually_packed_counterexample:
  "buf (GenerateMockMethod textType (str ''MockLogger'') logMethod [] newGenerator) =
     str ''func (mock *MockLogger) Log(format string, args ...string) {'' @ [10]
     @ [9] @ str ''params := []pegomock.Param{format, args}'' @ [10]
     @ [9] @ str '' pegomock.GetGenericMockFrom(mock).Invoke('' @ quoteMark @ str ''Log''
         @ quoteMark @ str '', params, true, []reflect.Type{})'' @ [10]
     @ str ''}'' @ [10]"
  by code_simp

text \<open>
  Claim C5.  For a method with at least one output, what the stub prints after the parameter
  list is, in this order: the call of \<^verbatim>\<open>Invoke\<close> assigned to \<^verbatim>\<open>result\<close>; for every output
  \<open>n\<close> a declaration \<^verbatim>\<open>var retN T\<close> of its declared type (so \<^verbatim>\<open>retN\<close> starts as the zero
  value of that type); inside \<^verbatim>\<open>if len(result) != 0\<close>, for every output \<open>n\<close> the narrowing
  assignment \<^verbatim>\<open>retN = result[N].(T)\<close> guarded by \<^verbatim>\<open>if result[N] != nil\<close>; and the statement
  \<^verbatim>\<open>return ret0, ..., retM-1\<close> in declared order.
\<close>

theorem stub_narrows_outputs:
  assumes "Out m \<noteq> []"
  shows "\<exists>head. buf (GenerateMockMethod tstr mt m ov g) =
     buf g @ head
     @ indent g @ tabs 1 @ str ''result := pegomock.GetGenericMockFrom(mock).Invoke(''
         @ quoteMark @ MethodName m @ quoteMark @ str '', params, ''
         @ boolStr (Variadic m \<noteq> None) @ str '', []reflect.Type{''
         @ Join (map (\<lambda>p. str ''reflect.TypeOf((*'' @ tstr (ParamType p) (packageMap g) ov
                             @ str '')(nil)).Elem()'') (Out m)) (str '', '')
         @ str ''})'' @ [10]
     @ concat (map (\<lambda>n. indent g @ tabs 1 @ str ''var ret'' @ Itoa n @ str '' ''
                        @ tstr (ParamType (Out m ! n)) (packageMap g) ov @ [10])
                 [0..<length (Out m)])
     @ indent g @ tabs 1 @ str ''if len(result) != 0 {'' @ [10]
     @ concat (map (\<lambda>n.
           indent g @ tabs (n + 2) @ str ''if result['' @ Itoa n @ str ''] != nil {'' @ [10]
           @ indent g @ tabs (n + 3) @ str ''ret'' @ Itoa n @ str ''  = result['' @ Itoa n
             @ str ''].('' @ tstr (ParamType (Out m ! n)) (packageMap g) ov @ str '')'' @ [10]
           @ indent g @ tabs (n + 3) @ str ''}'' @ [10]) [0..<length (Out m)])
     @ indent g @ tabs (length (Out m) + 1) @ str ''}'' @ [10]
     @ indent g @ tabs (length (Out m) + 1) @ str ''return ''
         @ Join (map (\<lambda>n. str ''ret'' @ Itoa n) [0..<length (Out m)]) (str '', '') @ [10]
     @ indent g @ tabs (length (Out m)) @ str ''}'' @ [10]"
proof -
  obtain args argNames argString rets retString callArgs where
    st: "getStuff tstr m g ov = (args, argNames, argString, rets, retString, callArgs)"
    by (cases "getStuff tstr m g ov")
  from st have rets: "rets = map (\<lambda>p. tstr (ParamType p) (packageMap g) ov) (Out m)"
    unfolding getStuff_eq Let_def by auto
  show ?thesis
    unfolding GenerateMockMethod_buf st prod.case
    apply (rule exI [of _ "indent g @ str ''func (mock *'' @ mt @ str '') '' @ MethodName m
              @ str ''('' @ argString @ str '')'' @ retString @ str '' {'' @ [10]
          @ indent g @ tabs 1 @ str ''params := []pegomock.Param{'' @ callArgs @ str ''}''
              @ [10]"])
    using assms
    apply (simp add: rets comp_def str_def nth_map_upt del: tabs_simps set_upt cong: map_cong)
    done
qed


theorem stub_narrows_outputs_witness:
  "Out pairMethod \<noteq> []
   \<and> (\<exists>head. buf (GenerateMockMethod textType (str ''MockP'') pairMethod [] newGenerator) =
        head
        @ [9] @ str ''result := pegomock.GetGenericMockFrom(mock).Invoke('' @ quoteMark
            @ str ''Pair'' @ quoteMark
            @ str '', params, false, []reflect.Type{reflect.TypeOf((*int)(nil)).Elem(), reflect.TypeOf((*error)(nil)).Elem()})''
            @ [10]
        @ [9] @ str ''var ret0 int'' @ [10]
        @ [9] @ str ''var ret1 error'' @ [10]
        @ [9] @ str ''if len(result) != 0 {'' @ [10]
        @ [9, 9] @ str ''if result[0] != nil {'' @ [10]
        @ [9, 9, 9] @ str ''ret0  = result[0].(int)'' @ [10]
        @ [9, 9, 9] @ str ''}'' @ [10]
        @ [9, 9, 9] @ str ''if result[1] != nil {'' @ [10]
        @ [9, 9, 9, 9] @ str ''ret1  = result[1].(error)'' @ [10]
        @ [9, 9, 9, 9] @ str ''}'' @ [10]
        @ [9, 9, 9] @ str ''}'' @ [10]
        @ [9, 9, 9] @ str ''return ret0, ret1'' @ [10]
        @ [9, 9] @ str ''}'' @ [10])"
proof -
  have ne: "Out pairMethod \<noteq> []" by (simp add: pairMethod_def)
  from stub_narrows_outputs [OF ne, where tstr = textType and g = newGenerator
      and ov = "[]" and mt = "str ''MockP''"]
  obtain head where
    eq: "buf (GenerateMockMethod textType (str ''MockP'') pairMethod [] newGenerator) =
       buf newGenerator @ head
       @ indent newGenerator @ tabs 1
           @ str ''result := pegomock.GetGenericMockFrom(mock).Invoke(''
           @ quoteMark @ MethodName pairMethod @ quoteMark @ str '', params, ''
           @ boolStr (Variadic pairMethod \<noteq> None) @ str '', []reflect.Type{''
           @ Join (map (\<lambda>p. str ''reflect.TypeOf((*''
                               @ textType (ParamType p) (packageMap newGenerator) []
                               @ str '')(nil)).Elem()'') (Out pairMethod)) (str '', '')
           @ str ''})'' @ [10]
       @ concat (map (\<lambda>n. indent newGenerator @ tabs 1 @ str ''var ret'' @ Itoa n @ str '' ''
                          @ textType (ParamType (Out pairMethod ! n)) (packageMap newGenerator) []
                          @ [10])
                   [0..<length (Out pairMethod)])
       @ indent newGenerator @ tabs 1 @ str ''if len(result) != 0 {'' @ [10]
       @ concat (map (\<lambda>n.
             indent newGenerator @ tabs (n + 2) @ str ''if result['' @ Itoa n
               @ str ''] != nil {'' @ [10]
             @ indent newGenerator @ tabs (n + 3) @ str ''ret'' @ Itoa n @ str ''  = result[''
               @ Itoa n @ str ''].(''
               @ textType (ParamType (Out pairMethod ! n)) (packageMap newGenerator) []
               @ str '')'' @ [10]
             @ indent newGenerator @ tabs (n + 3) @ str ''}'' @ [10])
           [0..<length (Out pairMethod)])
       @ indent newGenerator @ tabs (length (Out pairMethod) + 1) @ str ''}'' @ [10]
       @ indent newGenerator @ tabs (length (Out pairMethod) + 1) @ str ''return ''
           @ Join (map (\<lambda>n. str ''ret'' @ Itoa n) [0..<length (Out pairMethod)]) (str '', '')
           @ [10]
       @ indent newGenerator @ tabs (length (Out pairMethod)) @ str ''}'' @ [10]"
    by blast
  have "buf (GenerateMockMethod textType (str ''MockP'') pairMethod [] newGenerator) =
        head
        @ [9] @ str ''result := pegomock.GetGenericMockFrom(mock).Invoke('' @ quoteMark
            @ str ''Pair'' @ quoteMark
            @ str '', params, false, []reflect.Type{reflect.TypeOf((*int)(nil)).Elem(), reflect.TypeOf((*error)(nil)).Elem()})''
            @ [10]
        @ [9] @ str ''var ret0 int'' @ [10]
        @ [9] @ str ''var ret1 error'' @ [10]
        @ [9] @ str ''if len(result) != 0 {'' @ [10]
        @ [9, 9] @ str ''if result[0] != nil {'' @ [10]
        @ [9, 9, 9] @ str ''ret0  = result[0].(int)'' @ [10]
        @ [9, 9, 9] @ str ''}'' @ [10]
        @ [9, 9, 9] @ str ''if result[1] != nil {'' @ [10]
        @ [9, 9, 9, 9] @ str ''ret1  = result[1].(error)'' @ [10]
        @ [9, 9, 9, 9] @ str ''}'' @ [10]
        @ [9, 9, 9] @ str ''}'' @ [10]
        @ [9, 9, 9] @ str ''return ret0, ret1'' @ [10]
        @ [9, 9] @ str ''}'' @ [10]"
    unfolding eq
    by (simp add: pairMethod_def newGenerator_def textType_def boolStr_def str_def
        Itoa.simps upt_rec numeral_2_eq_2 numeral_3_eq_3)
  with ne show ?thesis by blast
qed

section \<open>The verifier methods never panic, and every emitter only appends\<close>

text \<open>
  Every argument \<^verbatim>\<open>getStuff\<close> builds holds a space between name and type, so the split
  in \<^verbatim>\<open>splitArg\<close> always has a second piece.
\<close>

lemma SplitSpace_nonempty: "SplitSpace s \<noteq> []"
  by (induction s) (auto split: list.splits)

lemma SplitSpace_two: "32 \<in> set s \<Longrightarrow> \<exists>a b rest. SplitSpace s = a # b # rest"
proof (induction s)
  case Nil
  then show ?case by simp
next
  case (Cons c cs)
  show ?case
  proof (cases "c = 32")
    case True
    obtain w ws where "SplitSpace cs = w # ws"
      using SplitSpace_nonempty [of cs] by (cases "SplitSpace cs") auto
    with True show ?thesis by simp
  next
    case False
    with Cons.prems have "32 \<in> set cs" by simp
    from Cons.IH [OF this] obtain a b rest where "SplitSpace cs = a # b # rest" by blast
    with False show ?thesis by simp
  qed
qed

lemma splitArg_total: "32 \<in> set arg \<Longrightarrow> \<exists>n t. splitArg arg = Inr (n, t)"
  using SplitSpace_two [of arg] by (auto simp: splitArg_def)

lemma mapE_total:
  "(\<forall>x\<in>set xs. \<exists>y. f x = Inr y) \<Longrightarrow> \<exists>ys. mapE f xs = Inr ys \<and> length ys = length xs"
proof (induction xs)
  case Nil
  then show ?case by simp
next
  case (Cons x xs)
  then obtain y ys where "f x = Inr y" "mapE f xs = Inr ys" "length ys = length xs"
    by auto
  then show ?case by simp
qed

lemma getStuff_args_space:
  assumes "getStuff tstr m g ov = (args, argNames, argString, rets, retString, callArgs)"
  shows "\<forall>a\<in>set args. 32 \<in> set a"
proof -
  have sp: "32 \<in> set (str '' '')" "32 \<in> set (str '' ...'')" by (simp_all add: str_def)
  from assms have "args =
      map (\<lambda>n. paramName n (In m ! n) @ str '' '' @ tstr (ParamType (In m ! n)) (packageMap g) ov)
        [0..<length (In m)]
      @ (case Variadic m of None \<Rightarrow> []
         | Some v \<Rightarrow> [paramName (length (In m)) v @ str '' ...''
                        @ tstr (ParamType v) (packageMap g) ov])"
    unfolding getStuff_eq Let_def by auto
  with sp show ?thesis by (auto split: option.splits)
qed

lemma getStuff_args_variadic:
  assumes "getStuff tstr m g ov = (args, argNames, argString, rets, retString, callArgs)"
    and "Variadic m \<noteq> None"
  shows "args \<noteq> []"
  using assms unfolding getStuff_eq Let_def by auto

lemma frameEI:
  "(\<And>g b. f (g\<lparr>buf := b @ buf g\<rparr>) =
      (case f g of Inl e \<Rightarrow> Inl e | Inr g' \<Rightarrow> Inr (g'\<lparr>buf := b @ buf g'\<rparr>))) \<Longrightarrow> frameE f"
  by (simp add: frameE_def)

lemma frameED:
  "frameE f \<Longrightarrow> f (g\<lparr>buf := b @ buf g\<rparr>) =
      (case f g of Inl e \<Rightarrow> Inl e | Inr g' \<Rightarrow> Inr (g'\<lparr>buf := b @ buf g'\<rparr>))"
  by (simp add: frameE_def)

lemma frameE_Inr: "frame f \<Longrightarrow> frameE (\<lambda>g. Inr (f g))"
  by (simp add: frameE_def frame_def)

lemma frameE_bind_const: "(\<And>v. frameE (F v)) \<Longrightarrow> frameE (\<lambda>g. bindE c (\<lambda>v. F v g))"
  by (cases c) (simp_all add: frameE_def bindE_def)

lemma frameE_bind: "frameE f \<Longrightarrow> frameE k \<Longrightarrow> frameE (\<lambda>g. bindE (f g) k)"
proof (rule frameEI)
  fix g b
  assume f: "frameE f" and k: "frameE k"
  show "bindE (f (g\<lparr>buf := b @ buf g\<rparr>)) k =
      (case bindE (f g) k of Inl e \<Rightarrow> Inl e | Inr g' \<Rightarrow> Inr (g'\<lparr>buf := b @ buf g'\<rparr>))"
  proof (cases "f g")
    case (Inl e)
    then show ?thesis by (simp add: frameED [OF f] bindE_def)
  next
    case (Inr g')
    then show ?thesis by (simp add: frameED [OF f] frameED [OF k] bindE_def)
  qed
qed

lemma frameE_if: "frameE f \<Longrightarrow> frameE h \<Longrightarrow> frameE (\<lambda>g. if c then f g else h g)"
  by (simp add: frameE_def)

lemma frameE_after: "frame f \<Longrightarrow> frameE k \<Longrightarrow> frameE (\<lambda>g. k (f g))"
  by (simp add: frameE_def frame_def)

lemma frameE_getStuff:
  "(\<And>t. frameE (K t)) \<Longrightarrow> frameE (\<lambda>g. K (getStuff tstr m g ov) g)"
proof (rule frameEI)
  fix g b
  assume "\<And>t. frameE (K t)"
  then have "frameE (K (getStuff tstr m g ov))" .
  from frameED [OF this, where g = g and b = b] show "K (getStuff tstr m (g\<lparr>buf := b @ buf g\<rparr>) ov) (g\<lparr>buf := b @ buf g\<rparr>) =
      (case K (getStuff tstr m g ov) g of Inl e \<Rightarrow> Inl e | Inr g' \<Rightarrow> Inr (g'\<lparr>buf := b @ buf g'\<rparr>))"
    by simp
qed

lemma frameE_foldE: "(\<And>x. frameE (\<lambda>g. f g x)) \<Longrightarrow> frameE (\<lambda>g. foldE f g xs)"
proof (induction xs)
  case Nil
  show ?case by (simp add: frameE_def)
next
  case (Cons x xs)
  have "frameE (\<lambda>g. bindE (f g x) (\<lambda>g'. foldE f g' xs))"
    by (rule frameE_bind) (simp_all add: Cons)
  then show ?case by (simp add: bindE_def)
qed

lemma frameE_calcParams: "frameE (calcParams argString args methodName)"
  unfolding calcParams_def
  by (intro frameE_if frameE_bind_const frameE_Inr) (simp_all add: split_beta)

lemma frameE_GenerateVerifierMethod: "frameE (GenerateVerifierMethod tstr name m ov)"
proof -
  have wrap: "frameE (\<lambda>g. (case getStuff tstr m g ov of
        (args, argNames, argString, rets, retString, argNamesString) \<Rightarrow>
          K args argNames argString argNamesString g))"
    if "\<And>args argNames argString argNamesString.
          frameE (K args argNames argString argNamesString)"
    for K :: "gostring list \<Rightarrow> gostring list \<Rightarrow> gostring \<Rightarrow> gostring \<Rightarrow> generator
                \<Rightarrow> error + generator"
    using frameE_getStuff [of "\<lambda>t. case t of
        (args, argNames, argString, rets, retString, argNamesString) \<Rightarrow>
          K args argNames argString argNamesString" tstr m ov] that
    by (simp add: split_beta)
  show ?thesis
    unfolding GenerateVerifierMethod_def Let_def
    apply (rule wrap)
    apply (intro frameE_bind_const)
    apply (rule frameE_bind)
     apply (rule frameE_if)
      apply (rule frameE_bind)
       apply (rule frameE_after)
        apply (simp add: split_beta)
       apply (rule frameE_calcParams)
      apply (rule frameE_Inr)
      apply simp
     apply (rule frameE_Inr)
     apply (simp add: split_beta)
    apply (rule frameE_Inr)
    apply simp
    done
qed

lemma bindE_simps [simp]: "bindE (Inr v) k = k v" "bindE (Inl e) k = Inl e"
  by (simp_all add: bindE_def)

lemma bindE_total:
  "\<exists>y. x = Inr y \<Longrightarrow> (\<And>y. \<exists>z. k y = Inr z) \<Longrightarrow> \<exists>z. bindE x k = Inr z"
  by auto

lemma if_total:
  "(c \<Longrightarrow> \<exists>y. a = Inr y) \<Longrightarrow> (\<not> c \<Longrightarrow> \<exists>y. b = Inr y) \<Longrightarrow> \<exists>y. (if c then a else b) = Inr y"
  by auto

lemma calcParams_total:
  assumes "\<forall>a\<in>set args. 32 \<in> set a"
  shows "\<exists>g'. calcParams argString args methodName g = Inr g'"
proof -
  have "\<forall>arg\<in>set args. \<exists>y. bindE (splitArg arg) (\<lambda>(n, t). Inr (ReplaceEllipsis (- 1) t)) = Inr y"
  proof
    fix arg assume "arg \<in> set args"
    with assms have "32 \<in> set arg" by blast
    from splitArg_total [OF this] show
      "\<exists>y. bindE (splitArg arg) (\<lambda>(n, t). Inr (ReplaceEllipsis (- 1) t)) = Inr y"
      by (auto simp: bindE_def)
  qed
  from mapE_total [OF this] show ?thesis
    by (auto simp: calcParams_def bindE_def)
qed

lemma GenerateVerifierMethod_total: "\<exists>g'. GenerateVerifierMethod tstr name m ov g = Inr g'"
proof -
  obtain args argNames argString rets retString argNamesString where
    st: "getStuff tstr m g ov = (args, argNames, argString, rets, retString, argNamesString)"
    by (cases "getStuff tstr m g ov")
  have sp: "\<forall>a\<in>set args. 32 \<in> set a" by (rule getStuff_args_space [OF st])
  have "\<forall>arg\<in>set args. \<exists>y. bindE (splitArg arg) (\<lambda>(n, t). Inr t) = Inr y"
  proof
    fix arg assume "arg \<in> set args"
    with sp have "32 \<in> set arg" by blast
    from splitArg_total [OF this] show "\<exists>y. bindE (splitArg arg) (\<lambda>(n, t). Inr t) = Inr y"
      by (auto simp: bindE_def)
  qed
  from mapE_total [OF this] obtain argTypes0 where
    at: "argTypesFrom args = Inr argTypes0" and atl: "length argTypes0 = length args"
    by (auto simp: argTypesFrom_def)
  have "\<forall>arg\<in>set args. \<exists>y. splitArg arg = Inr y"
    using sp splitArg_total by blast
  from mapE_total [OF this] obtain splits where sl: "mapE splitArg args = Inr splits"
    by blast
  have var: "Variadic m \<noteq> None \<Longrightarrow> argTypes0 \<noteq> []"
    using getStuff_args_variadic [OF st] atl by auto
  have cp: "\<exists>g'. calcParams argString args (MethodName m) h = Inr g'" for h
    by (rule calcParams_total [OF sp])
  have upd: "\<exists>y. (if Variadic m \<noteq> None then
                   (if argTypes0 = [] then Inl IndexOutOfRange
                    else Inr (argTypes0[length argTypes0 - 1 :=
                                ReplaceEllipsis 1 (last argTypes0)]))
                 else Inr argTypes0) = Inr y"
    using var by auto
  show ?thesis
    unfolding GenerateVerifierMethod_def st prod.case Let_def at sl bindE_simps
    apply (rule bindE_total [OF upd])
    apply (rule bindE_total)
     apply (rule if_total)
      apply (rule bindE_total)
       apply (rule cp)
      apply simp
     apply simp
    apply simp
    done
qed

lemma frameE_GenerateMockInterface: "frameE (GenerateMockInterface tstr iface ov)"
  unfolding GenerateMockInterface_def Let_def
  apply (rule frameE_after)
   apply simp
  apply (rule frameE_foldE)
  apply (rule frameE_bind)
   apply (rule frameE_GenerateVerifierMethod)
  apply (rule frameE_Inr)
  apply simp
  done

lemma foldE_total:
  "(\<And>s x. \<exists>s'. f s x = Inr s') \<Longrightarrow> \<exists>s'. foldE f s xs = Inr s'"
proof (induction xs arbitrary: s)
  case Nil
  show ?case by simp
next
  case (Cons x xs)
  from Cons.prems obtain s1 where "f s x = Inr s1" by blast
  moreover from Cons.IH [OF Cons.prems] obtain s2 where "foldE f s1 xs = Inr s2" by blast
  ultimately show ?case by simp
qed

lemma GenerateMockInterface_total: "\<exists>g'. GenerateMockInterface tstr iface ov g = Inr g'"
  unfolding GenerateMockInterface_def Let_def
  by (rule foldE_total, rule bindE_total, rule GenerateVerifierMethod_total) simp


lemma importLine_simps [simp]:
  "packageMap (importLine quote self g p) = packageMap g"
  "indent (importLine quote self g p) = indent g"
  by (simp_all add: importLine_def split: option.split)

lemma importLoop:
  "foldl (importLine quote self) g order =
     g\<lparr>buf := buf g @ concat (aliasImportLines quote self (packageMap g) (indent g) order)\<rparr>"
proof (induction order arbitrary: g)
  case Nil
  then show ?case by (simp add: aliasImportLines_def)
next
  case (Cons p order)
  let ?g1 = "importLine quote self g p"
  have "foldl (importLine quote self) g (p # order) = foldl (importLine quote self) ?g1 order"
    by simp
  also have "\<dots> = ?g1\<lparr>buf := buf ?g1
      @ concat (aliasImportLines quote self (packageMap ?g1) (indent ?g1) order)\<rparr>"
    by (rule Cons.IH)
  also have "\<dots> = g\<lparr>buf := buf g
      @ concat (aliasImportLines quote self (packageMap g) (indent g) (p # order))\<rparr>"
    unfolding importLine_simps
    by (simp add: importLine_def aliasImportLines_def g_p_def split: option.split)
  finally show ?case .
qed

lemma loop_print_list:
  "steps (map (\<lambda>x. g_p (F x)) xs) g =
     g\<lparr>buf := buf g @ concat (map (\<lambda>x. indent g @ F x @ [10]) xs)\<rparr>"
proof (induction xs arbitrary: g)
  case Nil
  then show ?case by (simp add: steps_Nil)
next
  case (Cons x xs)
  show ?case by (simp add: steps_Cons Cons.IH)
qed

lemma frameE_interfaces:
  "frameE (\<lambda>h. foldE (\<lambda>h iface. GenerateMockInterface tstr iface ov h) h ifaces)"
  by (rule frameE_foldE) (rule frameE_GenerateMockInterface)

lemma interfaces_total:
  "\<exists>g'. foldE (\<lambda>h iface. GenerateMockInterface tstr iface ov h) h ifaces = Inr g'"
  by (rule foldE_total) (rule GenerateMockInterface_total)

lemma Generate_buf:
  "\<exists>post. \<forall>pmOrder. \<exists>g'.
     Generate U quote tstr source pkg pkgName self imOrder pmOrder g = Inr g'
   \<and> buf g' =
       buf g
       @ indent g @ str ''// Automatically generated by MockGen. DO NOT EDIT!'' @ [10]
       @ indent g @ str ''// Source: '' @ source @ [10]
       @ indent g @ [10]
       @ indent g @ str ''package '' @ pkgName @ [10]
       @ indent g @ [10]
       @ indent g @ str ''import ('' @ [10]
       @ indent g @ [9] @ quoteMark @ str ''reflect'' @ quoteMark @ [10]
       @ concat (aliasImportLines quote self (fst (allocAliases U imOrder)) (indent g @ [9])
                   pmOrder)
       @ concat (map (\<lambda>path. indent g @ [9] @ str ''. '' @ quote path @ [10]) (DotImports pkg))
       @ indent g @ str '')'' @ [10]
       @ post"
proof -
  let ?pm = "fst (allocAliases U imOrder)"
  let ?tail = "\<lambda>h. foldE (\<lambda>h iface. GenerateMockInterface tstr iface self h) h (Interfaces pkg)"
  let ?G = "g\<lparr>buf := [], packageMap := ?pm\<rparr>"
  let ?text = "\<lambda>pmOrder. buf g
       @ indent g @ str ''// Automatically generated by MockGen. DO NOT EDIT!'' @ [10]
       @ indent g @ str ''// Source: '' @ source @ [10]
       @ indent g @ [10]
       @ indent g @ str ''package '' @ pkgName @ [10]
       @ indent g @ [10]
       @ indent g @ str ''import ('' @ [10]
       @ indent g @ [9] @ quoteMark @ str ''reflect'' @ quoteMark @ [10]
       @ concat (aliasImportLines quote self ?pm (indent g @ [9]) pmOrder)
       @ concat (map (\<lambda>path. indent g @ [9] @ str ''. '' @ quote path @ [10]) (DotImports pkg))
       @ indent g @ str '')'' @ [10]"
  obtain t where t: "?tail ?G = Inr t"
    using interfaces_total [of tstr self ?G "Interfaces pkg"] by blast
  have gen: "Generate U quote tstr source pkg pkgName self imOrder pmOrder g =
      ?tail (?G\<lparr>buf := ?text pmOrder @ buf ?G\<rparr>)" for pmOrder
    unfolding Generate_def Let_def
    by (simp add: steps_Cons steps_Nil importLoop loop_print_list g_out_def)
      (simp add: g_p_def g_in_def)
  have "\<exists>g'. Generate U quote tstr source pkg pkgName self imOrder pmOrder g = Inr g'
      \<and> buf g' = ?text pmOrder @ buf t" for pmOrder
    unfolding gen frameED [OF frameE_interfaces] t by simp
  then show ?thesis
    by (intro exI [of _ "buf t"]) simp
qed

section \<open>Properties of Generate\<close>

lemma Base_nonempty: "Base p \<noteq> []"
  by (simp add: Base_def Let_def str_def)

lemma sanitize_ident:
  "s \<noteq> [] \<Longrightarrow> sanitize U s \<noteq> [] \<and> (\<forall>r\<in>set (sanitize U s). identChar U r)"
proof -
  assume s: "s \<noteq> []"
  let ?t = "foldl (sanitize_step U) [] s"
  have "length ?t = length s"
    using sanitize_loop_length [of U "[]" s] by simp
  with s have ne: "?t \<noteq> []" by auto
  have inv: "\<forall>r\<in>set ?t. identChar U r"
    using sanitize_loop_ident [of "[]" U s] ne by simp
  have x: "identChar U 120" by (simp add: identChar_def IsLetter_def)
  show ?thesis
  proof (cases "?t = str ''_''")
    case True
    then have "sanitize U s = [120]" by (simp add: sanitize_def str_x)
    with x show ?thesis by simp
  next
    case False
    then have "sanitize U s = ?t" by (simp add: sanitize_def)
    with ne inv show ?thesis by simp
  qed
qed

lemma Itoa_digits: "Itoa n \<noteq> [] \<and> (\<forall>r\<in>set (Itoa n). 48 \<le> r \<and> r \<le> 57)"
proof (induction n rule: Itoa.induct)
  case (1 n)
  show ?case
  proof (cases "n < 10")
    case True
    then show ?thesis by (simp add: Itoa.simps [of n])
  next
    case False
    with 1 have "\<forall>r\<in>set (Itoa (n div 10)). 48 \<le> r \<and> r \<le> 57" by simp
    moreover have "n mod 10 < 10" by simp
    ultimately show ?thesis using False by (auto simp: Itoa.simps [of n])
  qed
qed

lemma Itoa_identChar: "\<forall>r\<in>set (Itoa n). identChar U r"
  using Itoa_digits [of n] by (auto simp: identChar_def IsDigit_def)

lemma uniqueName_aliasName:
  "aliasName U (uniqueName ln (sanitize U (Base pth)) 0 (sanitize U (Base pth)))"
proof -
  let ?base = "sanitize U (Base pth)"
  have base: "aliasName U ?base"
    using sanitize_ident [OF Base_nonempty, of U pth] by (simp add: aliasName_def)
  from uniqueName_first [of ln ?base 0 ?base]
  consider "uniqueName ln ?base 0 ?base = ?base"
    | k where "uniqueName ln ?base 0 ?base = ?base @ Itoa k"
    by blast
  then show ?thesis
  proof cases
    case 1
    with base show ?thesis by simp
  next
    case 2
    with base Itoa_identChar [of k U] show ?thesis by (auto simp: aliasName_def)
  qed
qed

lemma allocLoop_aliasName:
  "(\<forall>p a. fst st p = Some a \<longrightarrow> aliasName U a) \<Longrightarrow>
   \<forall>p a. fst (foldl (aliasStep U) st im) p = Some a \<longrightarrow> aliasName U a"
proof (induction im arbitrary: st)
  case Nil
  then show ?case by simp
next
  case (Cons q im)
  have "\<forall>p a. fst (aliasStep U st q) p = Some a \<longrightarrow> aliasName U a"
    using Cons.prems uniqueName_aliasName [of U "snd st" q]
    by (cases st) (auto simp: aliasStep_def Let_def)
  from Cons.IH [OF this] show ?case by simp
qed

lemma allocAliases_aliasName:
  "fst (allocAliases U im) p = Some a \<Longrightarrow> aliasName U a"
  using allocLoop_aliasName [of "(Map.empty, [])" U im] by (simp add: allocAliases_def)

lemma allocAliases_inj:
  "fst (allocAliases U im) p = Some a \<Longrightarrow> fst (allocAliases U im) q = Some a \<Longrightarrow> p = q"
  using allocAliases_inv [of U im] by (cases "allocAliases U im") (auto simp: aliasInv_def)

lemma aliasName_no_space: "aliasName U a \<Longrightarrow> 32 \<notin> set a \<and> hd a \<noteq> 34 \<and> hd a \<noteq> 46"
proof -
  assume a: "aliasName U a"
  have "\<not> identChar U 32" "\<not> identChar U 34" "\<not> identChar U 46"
    by (simp_all add: identChar_def IsLetter_def IsDigit_def)
  moreover from a have "hd a \<in> set a" by (simp add: aliasName_def)
  moreover from a have "\<forall>r\<in>set a. identChar U r" by (simp add: aliasName_def)
  ultimately show ?thesis by metis
qed

lemma space_split_unique:
  "32 \<notin> set a \<Longrightarrow> 32 \<notin> set b \<Longrightarrow> a @ 32 # x = b @ 32 # y \<Longrightarrow> a = b"
proof (induction a arbitrary: b)
  case Nil
  then show ?case by (cases b) auto
next
  case (Cons c a)
  then show ?case by (cases b) auto
qed

lemma aliasImportLines_filter:
  "aliasImportLines quote self pm ind order =
     map (\<lambda>path. ind @ the (pm path) @ str '' '' @ quote path @ [10])
       (filter (\<lambda>path. path \<noteq> self \<and> pm path \<noteq> None) order)"
  by (induction order) (auto simp: aliasImportLines_def split: option.split)

lemma aliasImportLines_mset:
  "mset o1 = mset o2 \<Longrightarrow>
   mset (aliasImportLines quote self pm ind o1) = mset (aliasImportLines quote self pm ind o2)"
proof -
  assume "mset o1 = mset o2"
  then have "mset (filter (\<lambda>path. path \<noteq> self \<and> pm path \<noteq> None) o1)
      = mset (filter (\<lambda>path. path \<noteq> self \<and> pm path \<noteq> None) o2)"
    by simp
  then have "image_mset (\<lambda>path. ind @ the (pm path) @ str '' '' @ quote path @ [10])
        (mset (filter (\<lambda>path. path \<noteq> self \<and> pm path \<noteq> None) o1))
      = image_mset (\<lambda>path. ind @ the (pm path) @ str '' '' @ quote path @ [10])
        (mset (filter (\<lambda>path. path \<noteq> self \<and> pm path \<noteq> None) o2))"
    by simp
  then show ?thesis
    unfolding aliasImportLines_filter by simp
qed

lemma iterates_mset: "iterates o1 keys \<Longrightarrow> iterates o2 keys \<Longrightarrow> mset o1 = mset o2"
  using set_eq_iff_mset_eq_distinct [of o1 o2] by (auto simp: iterates_def)

text \<open>
  The text that \<^verbatim>\<open>Generate\<close> assembles in a new generator, for every visiting order of the
  second loop, and the generated output in terms of it.
\<close>

lemma Generate_new:
  "\<exists>post. \<forall>pmOrder.
     assembledText (Generate U quote tstr source pkg pkgName self imOrder pmOrder newGenerator) =
       Inr (str ''// Automatically generated by MockGen. DO NOT EDIT!'' @ [10]
            @ str ''// Source: '' @ source @ [10]
            @ [10]
            @ str ''package '' @ pkgName @ [10]
            @ [10]
            @ str ''import ('' @ [10]
            @ [9] @ quoteMark @ str ''reflect'' @ quoteMark @ [10]
            @ concat (aliasImportLines quote self (fst (allocAliases U imOrder)) [9] pmOrder)
            @ concat (map (\<lambda>path. [9] @ str ''. '' @ quote path @ [10]) (DotImports pkg))
            @ str '')'' @ [10]
            @ post)"
proof -
  have ind: "indent newGenerator = []" "buf newGenerator = []"
    by (simp_all add: newGenerator_def)
  from Generate_buf [of U quote tstr source pkg pkgName self imOrder newGenerator]
  obtain post where
    all: "\<And>pmOrder. \<exists>g'.
       Generate U quote tstr source pkg pkgName self imOrder pmOrder newGenerator = Inr g'
     \<and> buf g' =
       str ''// Automatically generated by MockGen. DO NOT EDIT!'' @ [10]
       @ str ''// Source: '' @ source @ [10]
       @ [10]
       @ str ''package '' @ pkgName @ [10]
       @ [10]
       @ str ''import ('' @ [10]
       @ [9] @ quoteMark @ str ''reflect'' @ quoteMark @ [10]
       @ concat (aliasImportLines quote self (fst (allocAliases U imOrder)) [9] pmOrder)
       @ concat (map (\<lambda>path. [9] @ str ''. '' @ quote path @ [10]) (DotImports pkg))
       @ str '')'' @ [10]
       @ post"
    unfolding ind append_Nil by auto
  show ?thesis
  proof (rule exI [of _ post], rule allI)
    fix pmOrder
    from all [of pmOrder] show "assembledText
        (Generate U quote tstr source pkg pkgName self imOrder pmOrder newGenerator) =
       Inr (str ''// Automatically generated by MockGen. DO NOT EDIT!'' @ [10]
            @ str ''// Source: '' @ source @ [10]
            @ [10]
            @ str ''package '' @ pkgName @ [10]
            @ [10]
            @ str ''import ('' @ [10]
            @ [9] @ quoteMark @ str ''reflect'' @ quoteMark @ [10]
            @ concat (aliasImportLines quote self (fst (allocAliases U imOrder)) [9] pmOrder)
            @ concat (map (\<lambda>path. [9] @ str ''. '' @ quote path @ [10]) (DotImports pkg))
            @ str '')'' @ [10]
            @ post)"
      by (auto simp: assembledText_def)
  qed
qed

lemma generateOutput_assembled:
  "assembledText (Generate U quote tstr source pkg pkgName self imOrder pmOrder newGenerator)
     = Inr raw \<Longrightarrow>
   generateOutput Source U quote tstr pkg source pkgName self imOrder pmOrder =
     (case Source raw of
        Inl err \<Rightarrow>
          Inl (FormatFailed (str ''Failed to format generated source code: '' @ err @ [10] @ raw))
      | Inr src \<Rightarrow> Inr src)"
  by (auto simp: assembledText_def generateOutput_def Output_def split: sum.splits)

lemma alias_line_of_other_path:
  assumes "aliasName U b"
    and "[9] @ b @ str '' '' @ x @ [10] \<in> set (aliasImportLines quote self (fst (allocAliases U imOrder)) [9] pmOrder)"
  shows "\<exists>p. p \<noteq> self \<and> p \<in> set pmOrder \<and> fst (allocAliases U imOrder) p = Some b \<and> x = quote p"
proof -
  let ?pm = "fst (allocAliases U imOrder)"
  from assms(2) obtain p where p: "p \<noteq> self" "?pm p \<noteq> None" "p \<in> set pmOrder"
    and eq: "[9] @ b @ str '' '' @ x @ [10] = [9] @ the (?pm p) @ str '' '' @ quote p @ [10]"
    unfolding aliasImportLines_filter by auto
  from p obtain c where c: "?pm p = Some c" by auto
  have c32: "32 \<notin> set c"
    using aliasName_no_space [OF allocAliases_aliasName [OF c]] by simp
  have b32: "32 \<notin> set b" using aliasName_no_space [OF assms(1)] by simp
  from eq c have e: "b @ 32 # (x @ [10]) = c @ 32 # (quote p @ [10])"
    by (simp add: str_def)
  have bc: "b = c" using b32 c32 e space_split_unique by blast
  with e have "x = quote p" by simp
  with p c bc show ?thesis by auto
qed

text \<open>The alias lines of the package \<open>ioPackage\<close> for the two visiting orders of its alias map.\<close>

lemma ioPackage_lines_forward:
  "aliasImportLines quotePlain [] (fst (allocAliases asciiOnly [str ''io'', importPath])) [9]
     [str ''io'', importPath] =
   [[9] @ str ''io '' @ quoteMark @ str ''io'' @ quoteMark @ [10],
    [9] @ str ''pegomock '' @ quoteMark @ str ''github.com/petergtz/pegomock'' @ quoteMark @ [10]]"
  by code_simp

lemma ioPackage_lines_backward:
  "aliasImportLines quotePlain [] (fst (allocAliases asciiOnly [str ''io'', importPath])) [9]
     [importPath, str ''io''] =
   [[9] @ str ''pegomock '' @ quoteMark @ str ''github.com/petergtz/pegomock'' @ quoteMark @ [10],
    [9] @ str ''io '' @ quoteMark @ str ''io'' @ quoteMark @ [10]]"
  by code_simp

lemma allocAliases_no_keyword:
  "fst (allocAliases U im) p = Some a \<Longrightarrow> \<not> IsKeyword a"
  using allocAliases_inv [of U im] by (cases "allocAliases U im") (auto simp: aliasInv_def)

lemma aliasImportLines_spec:
  "l \<in> set (aliasImportLines quote self (fst (allocAliases U im)) [9] order)
   \<Longrightarrow> importSpecLine U quote l"
proof -
  let ?pm = "fst (allocAliases U im)"
  assume "l \<in> set (aliasImportLines quote self ?pm [9] order)"
  then obtain p where p: "?pm p \<noteq> None"
    and l: "l = [9] @ the (?pm p) @ str '' '' @ quote p @ [10]"
    unfolding aliasImportLines_filter by auto
  from p obtain a where a: "?pm p = Some a" by auto
  from allocAliases_aliasName [OF a] allocAliases_no_keyword [OF a] l a
  show ?thesis unfolding importSpecLine_def by auto
qed

lemma inj_quotePlain: "inj quotePlain"
  by (rule injI) (simp add: quotePlain_def)

section \<open>The formatter for evaluation\<close>

text \<open>
  \<open>sortImportLines\<close> on a text whose lines before \<^verbatim>\<open>import (\<close> and after it are known, and the
  proof that its result does not depend on the order of the import lines.
\<close>

lemma linesOf_line: "10 \<notin> set t \<Longrightarrow> linesOf (t @ 10 # s) = (t @ [10]) # linesOf s"
  by (induction t) auto

lemma linesOf_concat:
  "\<forall>l\<in>set ls. \<exists>t. l = t @ [10] \<and> 10 \<notin> set t \<Longrightarrow> linesOf (concat ls @ s) = ls @ linesOf s"
proof (induction ls)
  case Nil
  then show ?case by simp
next
  case (Cons l ls)
  then obtain t where t: "l = t @ [10]" "10 \<notin> set t" by auto
  from Cons have IH: "linesOf (concat ls @ s) = ls @ linesOf s" by simp
  have "linesOf (concat (l # ls) @ s) = linesOf (t @ 10 # (concat ls @ s))"
    using t by simp
  also have "\<dots> = (t @ [10]) # linesOf (concat ls @ s)"
    using t(2) by (rule linesOf_line)
  finally show ?case using t IH by simp
qed

lemma sortImportLines_text:
  assumes hs: "\<forall>l\<in>set hs. (\<exists>t. l = t @ [10] \<and> 10 \<notin> set t) \<and> l \<noteq> str ''import ('' @ [10]"
    and ls: "\<forall>l\<in>set ls. (\<exists>t. l = t @ [10] \<and> 10 \<notin> set t) \<and> l \<noteq> str '')'' @ [10]"
  shows "sortImportLines (concat hs @ str ''import ('' @ [10] @ concat ls @ rest) =
     Inr (concat (hs @ (str ''import ('' @ [10])
                  # sortByPath (ls @ takeWhile (\<lambda>l. l \<noteq> str '')'' @ [10]) (linesOf rest))
                  @ dropWhile (\<lambda>l. l \<noteq> str '')'' @ [10]) (linesOf rest)))"
proof -
  let ?open = "str ''import ('' @ [10]"
  let ?close = "str '')'' @ [10]"
  have op: "\<exists>t. ?open = t @ [10] \<and> 10 \<notin> set t"
    by (rule exI [of _ "str ''import (''"]) (simp add: str_def)
  have all: "\<forall>l\<in>set (hs @ ?open # ls). \<exists>t. l = t @ [10] \<and> 10 \<notin> set t"
    using hs ls op by auto
  define X where "X = concat hs @ str ''import ('' @ [10] @ concat ls @ rest"
  have "X = concat (hs @ ?open # ls) @ rest"
    by (simp add: X_def)
  then have lines: "linesOf X = hs @ ?open # (ls @ linesOf rest)"
    using linesOf_concat [OF all, of rest] by simp
  have tk: "takeWhile (\<lambda>l. l \<noteq> ?open) (hs @ ?open # (ls @ linesOf rest)) = hs"
    using hs by (simp add: takeWhile_append2)
  have dr: "dropWhile (\<lambda>l. l \<noteq> ?open) (hs @ ?open # (ls @ linesOf rest))
      = ?open # (ls @ linesOf rest)"
    using hs by (simp add: dropWhile_append2)
  have tk2: "takeWhile (\<lambda>l. l \<noteq> ?close) (ls @ linesOf rest)
      = ls @ takeWhile (\<lambda>l. l \<noteq> ?close) (linesOf rest)"
    using ls by (simp add: takeWhile_append2)
  have dr2: "dropWhile (\<lambda>l. l \<noteq> ?close) (ls @ linesOf rest)
      = dropWhile (\<lambda>l. l \<noteq> ?close) (linesOf rest)"
    using ls by (simp add: dropWhile_append2)
  have "sortImportLines X =
     Inr (concat (hs @ ?open
                  # sortByPath (ls @ takeWhile (\<lambda>l. l \<noteq> ?close) (linesOf rest))
                  @ dropWhile (\<lambda>l. l \<noteq> ?close) (linesOf rest)))"
    unfolding sortImportLines_def Let_def lines tk dr list.case tk2 dr2 by simp
  then show ?thesis unfolding X_def .
qed

lemma quoteEscaped_one_line: "10 \<notin> set (quoteEscaped p)"
  by (induction p) (auto simp: quoteEscaped_def quoteMark_def)

lemma aliasName_one_line: "aliasName U a \<Longrightarrow> 10 \<notin> set a"
proof -
  assume "aliasName U a"
  then have "\<forall>r\<in>set a. identChar U r" by (simp add: aliasName_def)
  moreover have "\<not> identChar U 10" by (simp add: identChar_def IsLetter_def IsDigit_def)
  ultimately show ?thesis by metis
qed

lemma importSpecLine_line:
  assumes "importSpecLine U quoteEscaped l"
  shows "(\<exists>t. l = t @ [10] \<and> 10 \<notin> set t) \<and> l \<noteq> str '')'' @ [10]"
  using assms unfolding importSpecLine_def
proof (elim disjE exE conjE)
  fix p
  assume l: "l = [9] @ quoteMark @ p @ quoteMark @ [10]" and p: "10 \<notin> set p"
  have "l = ([9] @ quoteMark @ p @ quoteMark) @ [10]" using l by simp
  moreover have "10 \<notin> set ([9] @ quoteMark @ p @ quoteMark)"
    using p by (simp add: quoteMark_def)
  moreover have "l \<noteq> str '')'' @ [10]" using l by (simp add: str_def)
  ultimately show ?thesis by blast
next
  fix a p
  assume a: "aliasName U a" and l: "l = [9] @ a @ str '' '' @ quoteEscaped p @ [10]"
  have "l = ([9] @ a @ str '' '' @ quoteEscaped p) @ [10]" using l by simp
  moreover have "10 \<notin> set ([9] @ a @ str '' '' @ quoteEscaped p)"
    using aliasName_one_line [OF a] quoteEscaped_one_line [of p] by (simp add: str_def)
  moreover have "l \<noteq> str '')'' @ [10]" using l by (simp add: str_def)
  ultimately show ?thesis by blast
qed

lemma lineComment_line:
  assumes "lineComment c"
  shows "(\<exists>t. c = t @ [10] \<and> 10 \<notin> set t) \<and> c \<noteq> str ''import ('' @ [10]"
  using assms unfolding lineComment_def
proof (elim disjE exE conjE)
  assume "c = [10]"
  then have "c = [] @ [10]" "c \<noteq> str ''import ('' @ [10]" by (simp_all add: str_def)
  then show ?thesis by fastforce
next
  fix t
  assume c: "c = str ''//'' @ t @ [10]" and t: "10 \<notin> set t"
  have "c = (str ''//'' @ t) @ [10]" using c by simp
  moreover have "10 \<notin> set (str ''//'' @ t)" using t by (simp add: str_def)
  moreover have "c \<noteq> str ''import ('' @ [10]" using c by (simp add: str_def)
  ultimately show ?thesis by blast
qed

lemma sortImportLines_insensitive: "importOrderInsensitive U quoteEscaped sortImportLines"
  unfolding importOrderInsensitive_def
proof (intro allI impI, elim conjE)
  fix cs bs ls ls' :: "gostring list" and name rest :: gostring
  assume cs: "\<forall>c\<in>set cs. lineComment c" and name: "aliasName U name"
    and bs: "\<forall>b\<in>set bs. b = [10]"
    and ls: "\<forall>l\<in>set ls. importSpecLine U quoteEscaped l" and ms: "mset ls' = mset ls"
  let ?pkg = "str ''package '' @ name @ [10]"
  let ?hs = "cs @ ?pkg # bs"
  let ?close = "str '')'' @ [10]"
  have pkg: "(\<exists>t. ?pkg = t @ [10] \<and> 10 \<notin> set t) \<and> ?pkg \<noteq> str ''import ('' @ [10]"
  proof
    have "?pkg = (str ''package '' @ name) @ [10]" by simp
    moreover have "10 \<notin> set (str ''package '' @ name)"
      using aliasName_one_line [OF name] by (simp add: str_def)
    ultimately show "\<exists>t. ?pkg = t @ [10] \<and> 10 \<notin> set t" by blast
    show "?pkg \<noteq> str ''import ('' @ [10]" by (simp add: str_def)
  qed
  have blank: "(\<exists>t. b = t @ [10] \<and> 10 \<notin> set t) \<and> b \<noteq> str ''import ('' @ [10]"
    if "b \<in> set bs" for b
  proof -
    from that bs have "b = [] @ [10]" "b \<noteq> str ''import ('' @ [10]"
      by (simp_all add: str_def)
    then show ?thesis by fastforce
  qed
  have hs: "\<forall>l\<in>set ?hs. (\<exists>t. l = t @ [10] \<and> 10 \<notin> set t) \<and> l \<noteq> str ''import ('' @ [10]"
    using cs lineComment_line pkg blank by auto
  from ms have sets: "set ls' = set ls" by (rule mset_eq_setD)
  have l1: "\<forall>l\<in>set ls. (\<exists>t. l = t @ [10] \<and> 10 \<notin> set t) \<and> l \<noteq> ?close"
    using ls importSpecLine_line by blast
  with sets have l2: "\<forall>l\<in>set ls'. (\<exists>t. l = t @ [10] \<and> 10 \<notin> set t) \<and> l \<noteq> ?close"
    by simp
  let ?X = "takeWhile (\<lambda>l. l \<noteq> ?close) (linesOf rest)"
  have "sort (map (\<lambda>l. (dropWhile (\<lambda>c. c \<noteq> 34) l, l)) (ls' @ ?X))
      = sort (map (\<lambda>l. (dropWhile (\<lambda>c. c \<noteq> 34) l, l)) (ls @ ?X))"
    by (rule properties_for_sort) (simp_all add: ms)
  then have srt: "sortByPath (ls' @ ?X) = sortByPath (ls @ ?X)"
    by (simp add: sortByPath_def)
  have shape: "concat cs @ str ''package '' @ name @ [10] @ concat bs
        @ str ''import ('' @ [10] @ concat ks @ rest
      = concat ?hs @ str ''import ('' @ [10] @ concat ks @ rest" for ks
    by simp
  show "sameResult
          (sortImportLines (concat cs @ str ''package '' @ name @ [10] @ concat bs
                            @ str ''import ('' @ [10] @ concat ls @ rest))
          (sortImportLines (concat cs @ str ''package '' @ name @ [10] @ concat bs
                            @ str ''import ('' @ [10] @ concat ls' @ rest))"
    unfolding shape sortImportLines_text [OF hs l1] sortImportLines_text [OF hs l2] srt
    by (simp add: sameResult_def)
qed

lemma ioPackage_lines_escaped:
  "aliasImportLines quoteEscaped [] (fst (allocAliases asciiOnly [str ''io'', importPath])) [9]
     [str ''io'', importPath] =
   [[9] @ str ''io '' @ quoteMark @ str ''io'' @ quoteMark @ [10],
    [9] @ str ''pegomock '' @ quoteMark @ str ''github.com/petergtz/pegomock'' @ quoteMark @ [10]]"
  by code_simp

lemma ioPackage_formatted:
  "sortImportLines (concat (map (\<lambda>l. l @ [10])
       [str ''// Automatically generated by MockGen. DO NOT EDIT!'',
        str ''// Source: foo.go'',
        [],
        str ''package mocks'',
        [],
        str ''import ('',
        [9] @ quoteMark @ str ''reflect'' @ quoteMark,
        [9] @ str ''io '' @ quoteMark @ str ''io'' @ quoteMark,
        [9] @ str ''pegomock '' @ quoteMark @ str ''github.com/petergtz/pegomock'' @ quoteMark,
        [9] @ str ''. '' @ quoteMark @ str ''fmt'' @ quoteMark,
        str '')''])) =
   Inr (concat (map (\<lambda>l. l @ [10])
       [str ''// Automatically generated by MockGen. DO NOT EDIT!'',
        str ''// Source: foo.go'',
        [],
        str ''package mocks'',
        [],
        str ''import ('',
        [9] @ str ''. '' @ quoteMark @ str ''fmt'' @ quoteMark,
        [9] @ str ''pegomock '' @ quoteMark @ str ''github.com/petergtz/pegomock'' @ quoteMark,
        [9] @ str ''io '' @ quoteMark @ str ''io'' @ quoteMark,
        [9] @ quoteMark @ str ''reflect'' @ quoteMark,
        str '')'']))"
  by code_simp
section \<open>The import block\<close>

text \<open>
  Claim C6, as the code has it.  In the sequence of the specification the import block is
  emitted first and the assembled text is handed to the formatter afterwards; the statement
  is about this assembled text, the buffer of \<^verbatim>\<open>Generate\<close> run on a new generator.  Its import
  block opens with the fixed import of \<^verbatim>\<open>reflect\<close>; then comes one line \<^verbatim>\<open>alias "path"\<close> for
  every entry of the alias map but that of the self package, in the order in which this run
  of the second loop visits the keys of the map; then come the dot imports in the order of
  the model, and the closing parenthesis.  The import of the recorder library is one of the
  alias lines exactly when the recorder library is not the self package.  The generated
  output is what \<^verbatim>\<open>Output\<close> makes of this text: the result of the formatter on it, or the panic
  that carries the diagnostic.
\<close>

theorem import_block_layout:
  "\<exists>raw post.
     assembledText (Generate U quote tstr source pkg pkgName self imOrder pmOrder newGenerator)
       = Inr raw
   \<and> raw =
       str ''// Automatically generated by MockGen. DO NOT EDIT!'' @ [10]
       @ str ''// Source: '' @ source @ [10]
       @ [10]
       @ str ''package '' @ pkgName @ [10]
       @ [10]
       @ str ''import ('' @ [10]
       @ [9] @ quoteMark @ str ''reflect'' @ quoteMark @ [10]
       @ concat (aliasImportLines quote self (fst (allocAliases U imOrder)) [9] pmOrder)
       @ concat (map (\<lambda>path. [9] @ str ''. '' @ quote path @ [10]) (DotImports pkg))
       @ str '')'' @ [10]
       @ post
   \<and> aliasImportLines quote self (fst (allocAliases U imOrder)) [9] pmOrder =
       map (\<lambda>path. [9] @ the (fst (allocAliases U imOrder) path) @ str '' '' @ quote path @ [10])
         (filter (\<lambda>path. path \<noteq> self \<and> fst (allocAliases U imOrder) path \<noteq> None) pmOrder)
   \<and> generateOutput Source U quote tstr pkg source pkgName self imOrder pmOrder =
       (case Source raw of
          Inl err \<Rightarrow>
            Inl (FormatFailed
                   (str ''Failed to format generated source code: '' @ err @ [10] @ raw))
        | Inr src \<Rightarrow> Inr src)
   \<and> (iterates imOrder (insert importPath (Imports pkg)) \<and> iterates pmOrder (set imOrder)
        \<longrightarrow>
        ([9] @ the (fst (allocAliases U imOrder) importPath) @ str '' '' @ quote importPath
           @ [10]
         \<in> set (aliasImportLines quote self (fst (allocAliases U imOrder)) [9] pmOrder))
        = (importPath \<noteq> self))"
proof -
  let ?pm = "fst (allocAliases U imOrder)"
  let ?lines = "aliasImportLines quote self ?pm [9] pmOrder"
  let ?text = "\<lambda>post. str ''// Automatically generated by MockGen. DO NOT EDIT!'' @ [10]
       @ str ''// Source: '' @ source @ [10]
       @ [10]
       @ str ''package '' @ pkgName @ [10]
       @ [10]
       @ str ''import ('' @ [10]
       @ [9] @ quoteMark @ str ''reflect'' @ quoteMark @ [10]
       @ concat ?lines
       @ concat (map (\<lambda>path. [9] @ str ''. '' @ quote path @ [10]) (DotImports pkg))
       @ str '')'' @ [10]
       @ post"
  from Generate_new [of U quote tstr source pkg pkgName self imOrder]
  obtain post where
    a: "assembledText
          (Generate U quote tstr source pkg pkgName self imOrder pmOrder newGenerator)
        = Inr (?text post)"
    by blast
  have b: "?lines =
       map (\<lambda>path. [9] @ the (?pm path) @ str '' '' @ quote path @ [10])
         (filter (\<lambda>path. path \<noteq> self \<and> ?pm path \<noteq> None) pmOrder)"
    using aliasImportLines_filter [of quote self ?pm "[9]" pmOrder] by simp
  note c = generateOutput_assembled [OF a, of Source]
  have d: "([9] @ the (?pm importPath) @ str '' '' @ quote importPath @ [10] \<in> set ?lines)
        = (importPath \<noteq> self)"
    if im: "iterates imOrder (insert importPath (Imports pkg))"
      and pm: "iterates pmOrder (set imOrder)"
  proof -
    from im have "importPath \<in> set imOrder" by (auto simp: iterates_def)
    with pm have inpm: "importPath \<in> set pmOrder" by (auto simp: iterates_def)
    from \<open>importPath \<in> set imOrder\<close> have "importPath \<in> dom ?pm"
      by (simp add: allocAliases_dom)
    then obtain r where r: "?pm importPath = Some r" by auto
    show ?thesis
    proof (cases "importPath = self")
      case False
      moreover from r have "?pm importPath \<noteq> None" by simp
      ultimately have "[9] @ the (?pm importPath) @ str '' '' @ quote importPath @ [10]
          \<in> set ?lines"
        using inpm unfolding b by auto
      with False show ?thesis by simp
    next
      case True
      have "[9] @ r @ str '' '' @ quote importPath @ [10] \<notin> set ?lines"
      proof
        assume "[9] @ r @ str '' '' @ quote importPath @ [10] \<in> set ?lines"
        from alias_line_of_other_path [OF allocAliases_aliasName [OF r] this]
        obtain p where p: "p \<noteq> self" "?pm p = Some r" by blast
        from allocAliases_inj [OF p(2) r] have "p = importPath" .
        with True p(1) show False by simp
      qed
      with True r show ?thesis by simp
    qed
  qed
  from a b c d show ?thesis by blast
qed

text \<open>
  One model, one order of alias assignment, two visiting orders of the alias map: in the
  text assembled the first import is \<^verbatim>\<open>reflect\<close> both times, and the recorder library's import
  and that of \<^verbatim>\<open>io\<close> change places.
\<close>

theorem import_block_layout_counterexample:
  "assembledText (Generate asciiOnly quotePlain textType (str ''foo.go'') ioPackage
       (str ''mocks'') [] [str ''io'', importPath] [str ''io'', importPath] newGenerator) =
     Inr (concat (map (\<lambda>l. l @ [10])
       [str ''// Automatically generated by MockGen. DO NOT EDIT!'',
        str ''// Source: foo.go'',
        [],
        str ''package mocks'',
        [],
        str ''import ('',
        [9] @ quoteMark @ str ''reflect'' @ quoteMark,
        [9] @ str ''io '' @ quoteMark @ str ''io'' @ quoteMark,
        [9] @ str ''pegomock '' @ quoteMark @ str ''github.com/petergtz/pegomock'' @ quoteMark,
        [9] @ str ''. '' @ quoteMark @ str ''fmt'' @ quoteMark,
        str '')'']))
   \<and> assembledText (Generate asciiOnly quotePlain textType (str ''foo.go'') ioPackage
       (str ''mocks'') [] [str ''io'', importPath] [importPath, str ''io''] newGenerator) =
     Inr (concat (map (\<lambda>l. l @ [10])
       [str ''// Automatically generated by MockGen. DO NOT EDIT!'',
        str ''// Source: foo.go'',
        [],
        str ''package mocks'',
        [],
        str ''import ('',
        [9] @ quoteMark @ str ''reflect'' @ quoteMark,
        [9] @ str ''pegomock '' @ quoteMark @ str ''github.com/petergtz/pegomock'' @ quoteMark,
        [9] @ str ''io '' @ quoteMark @ str ''io'' @ quoteMark,
        [9] @ str ''. '' @ quoteMark @ str ''fmt'' @ quoteMark,
        str '')'']))"
proof -
  have gen: "assembledText (Generate asciiOnly quotePlain textType (str ''foo.go'') ioPackage
        (str ''mocks'') [] [str ''io'', importPath] pmOrder newGenerator) =
      Inr (str ''// Automatically generated by MockGen. DO NOT EDIT!'' @ [10]
        @ str ''// Source: '' @ str ''foo.go'' @ [10]
        @ [10]
        @ str ''package '' @ str ''mocks'' @ [10]
        @ [10]
        @ str ''import ('' @ [10]
        @ [9] @ quoteMark @ str ''reflect'' @ quoteMark @ [10]
        @ concat (aliasImportLines quotePlain []
            (fst (allocAliases asciiOnly [str ''io'', importPath])) [9] pmOrder)
        @ [9] @ str ''. '' @ quotePlain (str ''fmt'') @ [10]
        @ str '')'' @ [10])" for pmOrder
    by (simp add: assembledText_def Generate_def Let_def steps_Cons steps_Nil importLoop
        loop_print_list g_out_def newGenerator_def ioPackage_def)
  show ?thesis
    unfolding gen ioPackage_lines_forward ioPackage_lines_backward
    by (simp add: str_def quotePlain_def)
qed

theorem import_block_layout_witness:
  "iterates [str ''io'', importPath] (insert importPath (Imports ioPackage))
   \<and> iterates [importPath, str ''io''] (set [str ''io'', importPath])
   \<and> importPath \<noteq> []
   \<and> [9] @ str ''pegomock '' @ quotePlain importPath @ [10]
       \<in> set (aliasImportLines quotePlain []
                (fst (allocAliases asciiOnly [str ''io'', importPath])) [9]
                [importPath, str ''io''])
   \<and> (\<exists>post.
         assembledText
           (Generate asciiOnly quotePlain textType (str ''foo.go'') ioPackage (str ''mocks'') []
              [str ''io'', importPath] [importPath, str ''io''] newGenerator) =
         Inr (str ''// Automatically generated by MockGen. DO NOT EDIT!'' @ [10]
           @ str ''// Source: foo.go'' @ [10]
           @ [10]
           @ str ''package mocks'' @ [10]
           @ [10]
           @ str ''import ('' @ [10]
           @ [9] @ quoteMark @ str ''reflect'' @ quoteMark @ [10]
           @ [9] @ str ''pegomock '' @ quoteMark @ str ''github.com/petergtz/pegomock''
               @ quoteMark @ [10]
           @ [9] @ str ''io '' @ quoteMark @ str ''io'' @ quoteMark @ [10]
           @ [9] @ str ''. '' @ quoteMark @ str ''fmt'' @ quoteMark @ [10]
           @ str '')'' @ [10]
           @ post))"
proof -
  have ne: "str ''io'' \<noteq> importPath" by (simp add: str_def importPath_def)
  then have h1: "iterates [str ''io'', importPath] (insert importPath (Imports ioPackage))"
    and h2: "iterates [importPath, str ''io''] (set [str ''io'', importPath])"
    by (auto simp: iterates_def ioPackage_def)
  have h3: "importPath \<noteq> []" by (simp add: importPath_def str_def)
  have look: "fst (allocAliases asciiOnly [str ''io'', importPath]) importPath
      = Some (str ''pegomock'')"
    by code_simp
  note inst = import_block_layout [where U = asciiOnly and quote = quotePlain
      and tstr = textType and source = "str ''foo.go''" and pkg = ioPackage
      and pkgName = "str ''mocks''" and self = "[]" and imOrder = "[str ''io'', importPath]"
      and pmOrder = "[importPath, str ''io'']" and Source = sortImportLines]
  from inst obtain raw post where
    gen: "assembledText
           (Generate asciiOnly quotePlain textType (str ''foo.go'') ioPackage (str ''mocks'') []
              [str ''io'', importPath] [importPath, str ''io''] newGenerator) = Inr raw"
    and emitted: "raw =
       str ''// Automatically generated by MockGen. DO NOT EDIT!'' @ [10]
       @ str ''// Source: '' @ str ''foo.go'' @ [10]
       @ [10]
       @ str ''package '' @ str ''mocks'' @ [10]
       @ [10]
       @ str ''import ('' @ [10]
       @ [9] @ quoteMark @ str ''reflect'' @ quoteMark @ [10]
       @ concat (aliasImportLines quotePlain []
                   (fst (allocAliases asciiOnly [str ''io'', importPath])) [9]
                   [importPath, str ''io''])
       @ concat (map (\<lambda>path. [9] @ str ''. '' @ quotePlain path @ [10])
                   (DotImports ioPackage))
       @ str '')'' @ [10]
       @ post"
    by blast
  from inst h1 h2 h3 have "[9]
        @ the (fst (allocAliases asciiOnly [str ''io'', importPath]) importPath) @ str '' ''
        @ quotePlain importPath @ [10]
      \<in> set (aliasImportLines quotePlain []
               (fst (allocAliases asciiOnly [str ''io'', importPath])) [9]
               [importPath, str ''io''])"
    by blast
  then have mem: "[9] @ str ''pegomock '' @ quotePlain importPath @ [10]
       \<in> set (aliasImportLines quotePlain []
                (fst (allocAliases asciiOnly [str ''io'', importPath])) [9]
                [importPath, str ''io''])"
    unfolding look by (simp add: str_def)
  have "raw =
           str ''// Automatically generated by MockGen. DO NOT EDIT!'' @ [10]
           @ str ''// Source: foo.go'' @ [10]
           @ [10]
           @ str ''package mocks'' @ [10]
           @ [10]
           @ str ''import ('' @ [10]
           @ [9] @ quoteMark @ str ''reflect'' @ quoteMark @ [10]
           @ [9] @ str ''pegomock '' @ quoteMark @ str ''github.com/petergtz/pegomock''
               @ quoteMark @ [10]
           @ [9] @ str ''io '' @ quoteMark @ str ''io'' @ quoteMark @ [10]
           @ [9] @ str ''. '' @ quoteMark @ str ''fmt'' @ quoteMark @ [10]
           @ str '')'' @ [10]
           @ post"
    unfolding emitted ioPackage_lines_backward
    by (simp add: ioPackage_def quotePlain_def str_def)
  with gen h1 h2 h3 mem show ?thesis by blast
qed

section \<open>Determinism of the generated output\<close>

text \<open>
  Claim C7.  The generated output is the result of \<^verbatim>\<open>generateOutput\<close>: the text of \<^verbatim>\<open>Generate\<close>
  passed through the formatter.  The model, the source name, the package name, the self
  package and the order \<open>imOrder\<close> of alias assignment are the same in the two runs; what
  may differ is the order in which the second loop visits the alias map, \<open>o1\<close> in one run
  and \<open>o2\<close> in the other.  The two assembled texts then differ by the order of the alias
  import lines only, all of them lines of the one import declaration, and a formatter that
  sorts the lines of an import declaration (\<open>importOrderInsensitive\<close>, which is what
  \<^verbatim>\<open>format.Source\<close> does) gives the same output for both, or fails for both, in which case
  both runs end in the panic of \<^verbatim>\<open>Output\<close>.  The first lines of the text must be a comment
  block and a package clause: the source name holds no line break, and the package name is
  made of letters, digits and underscores.
\<close>

theorem generated_output_deterministic:
  assumes fmt: "importOrderInsensitive U quote Source"
    and src: "10 \<notin> set source" and pn: "aliasName U pkgName"
    and o1: "iterates o1 (set imOrder)" and o2: "iterates o2 (set imOrder)"
  shows "(\<exists>out.
            generateOutput Source U quote tstr pkg source pkgName self imOrder o1 = Inr out
          \<and> generateOutput Source U quote tstr pkg source pkgName self imOrder o2 = Inr out)
       \<or> (\<exists>m1 m2.
            generateOutput Source U quote tstr pkg source pkgName self imOrder o1
              = Inl (FormatFailed m1)
          \<and> generateOutput Source U quote tstr pkg source pkgName self imOrder o2
              = Inl (FormatFailed m2))"
proof -
  let ?pm = "fst (allocAliases U imOrder)"
  let ?cs = "[str ''//'' @ str '' Automatically generated by MockGen. DO NOT EDIT!'' @ [10],
              str ''//'' @ (str '' Source: '' @ source) @ [10],
              [10]]"
  let ?bs = "[[10::nat]]"
  let ?fixed = "[9] @ quoteMark @ str ''reflect'' @ quoteMark @ [10]"
  let ?ls = "\<lambda>order. ?fixed # aliasImportLines quote self ?pm [9] order"
  from Generate_new [of U quote tstr source pkg pkgName self imOrder]
  obtain post where
    all: "\<And>pmOrder.
     assembledText (Generate U quote tstr source pkg pkgName self imOrder pmOrder newGenerator) =
       Inr (str ''// Automatically generated by MockGen. DO NOT EDIT!'' @ [10]
            @ str ''// Source: '' @ source @ [10]
            @ [10]
            @ str ''package '' @ pkgName @ [10]
            @ [10]
            @ str ''import ('' @ [10]
            @ [9] @ quoteMark @ str ''reflect'' @ quoteMark @ [10]
            @ concat (aliasImportLines quote self ?pm [9] pmOrder)
            @ concat (map (\<lambda>path. [9] @ str ''. '' @ quote path @ [10]) (DotImports pkg))
            @ str '')'' @ [10]
            @ post)"
    by blast
  let ?rest = "concat (map (\<lambda>path. [9] @ str ''. '' @ quote path @ [10]) (DotImports pkg))
            @ str '')'' @ [10] @ post"
  let ?raw = "\<lambda>order. concat ?cs @ str ''package '' @ pkgName @ [10] @ concat ?bs
                       @ str ''import ('' @ [10] @ concat (?ls order) @ ?rest"
  have raw: "assembledText
       (Generate U quote tstr source pkg pkgName self imOrder order newGenerator)
     = Inr (?raw order)" for order
    unfolding all by (simp add: str_def)
  have cs: "\<forall>c\<in>set ?cs. lineComment c"
    using src by (auto simp: lineComment_def str_def)
  have bs: "\<forall>b\<in>set ?bs. b = [10]" by simp
  have "importSpecLine U quote ?fixed"
    unfolding importSpecLine_def by (rule disjI1, rule exI [of _ "str ''reflect''"])
      (simp add: str_def)
  then have ls: "\<forall>l\<in>set (?ls o1). importSpecLine U quote l"
    using aliasImportLines_spec [of _ quote self U imOrder o1] by auto
  have ms: "mset (?ls o2) = mset (?ls o1)"
    using aliasImportLines_mset [OF iterates_mset [OF o2 o1], of quote self ?pm "[9]"] by simp
  from fmt cs pn bs ls ms have same: "sameResult (Source (?raw o1)) (Source (?raw o2))"
    unfolding importOrderInsensitive_def by blast
  note g1 = generateOutput_assembled [OF raw [of o1], of Source]
  note g2 = generateOutput_assembled [OF raw [of o2], of Source]
  from same show ?thesis
    unfolding g1 g2 by (auto simp: sameResult_def split: sum.splits)
qed

text \<open>
  The package \<open>ioPackage\<close> with the formatter \<open>sortImportLines\<close>: the two visiting orders
  of the alias map give the same output, the imports in the order of their paths.
\<close>

theorem generated_output_deterministic_witness:
  "importOrderInsensitive asciiOnly quoteEscaped sortImportLines
   \<and> 10 \<notin> set (str ''foo.go'')
   \<and> aliasName asciiOnly (str ''mocks'')
   \<and> iterates [str ''io'', importPath] (set [str ''io'', importPath])
   \<and> iterates [importPath, str ''io''] (set [str ''io'', importPath])
   \<and> generateOutput sortImportLines asciiOnly quoteEscaped textType ioPackage (str ''foo.go'')
       (str ''mocks'') [] [str ''io'', importPath] [str ''io'', importPath] =
     Inr (concat (map (\<lambda>l. l @ [10])
       [str ''// Automatically generated by MockGen. DO NOT EDIT!'',
        str ''// Source: foo.go'',
        [],
        str ''package mocks'',
        [],
        str ''import ('',
        [9] @ str ''. '' @ quoteMark @ str ''fmt'' @ quoteMark,
        [9] @ str ''pegomock '' @ quoteMark @ str ''github.com/petergtz/pegomock'' @ quoteMark,
        [9] @ str ''io '' @ quoteMark @ str ''io'' @ quoteMark,
        [9] @ quoteMark @ str ''reflect'' @ quoteMark,
        str '')'']))
   \<and> generateOutput sortImportLines asciiOnly quoteEscaped textType ioPackage (str ''foo.go'')
       (str ''mocks'') [] [str ''io'', importPath] [importPath, str ''io''] =
     Inr (concat (map (\<lambda>l. l @ [10])
       [str ''// Automatically generated by MockGen. DO NOT EDIT!'',
        str ''// Source: foo.go'',
        [],
        str ''package mocks'',
        [],
        str ''import ('',
        [9] @ str ''. '' @ quoteMark @ str ''fmt'' @ quoteMark,
        [9] @ str ''pegomock '' @ quoteMark @ str ''github.com/petergtz/pegomock'' @ quoteMark,
        [9] @ str ''io '' @ quoteMark @ str ''io'' @ quoteMark,
        [9] @ quoteMark @ str ''reflect'' @ quoteMark,
        str '')'']))"
proof -
  let ?im = "[str ''io'', importPath]"
  let ?o1 = "[str ''io'', importPath]"
  let ?o2 = "[importPath, str ''io'']"
  let ?out = "concat (map (\<lambda>l. l @ [10])
       [str ''// Automatically generated by MockGen. DO NOT EDIT!'',
        str ''// Source: foo.go'',
        [],
        str ''package mocks'',
        [],
        str ''import ('',
        [9] @ str ''. '' @ quoteMark @ str ''fmt'' @ quoteMark,
        [9] @ str ''pegomock '' @ quoteMark @ str ''github.com/petergtz/pegomock'' @ quoteMark,
        [9] @ str ''io '' @ quoteMark @ str ''io'' @ quoteMark,
        [9] @ quoteMark @ str ''reflect'' @ quoteMark,
        str '')''])"
  have fmt: "importOrderInsensitive asciiOnly quoteEscaped sortImportLines"
    by (rule sortImportLines_insensitive)
  have src: "10 \<notin> set (str ''foo.go'')" by (simp add: str_def)
  have pn: "aliasName asciiOnly (str ''mocks'')"
    by (simp add: aliasName_def identChar_def IsLetter_def str_def)
  have ne: "str ''io'' \<noteq> importPath" by (simp add: str_def importPath_def)
  then have i1: "iterates ?o1 (set ?im)" and i2: "iterates ?o2 (set ?im)"
    by (auto simp: iterates_def)
  have raw: "assembledText (Generate asciiOnly quoteEscaped textType (str ''foo.go'') ioPackage
        (str ''mocks'') [] ?im pmOrder newGenerator) =
      Inr (str ''// Automatically generated by MockGen. DO NOT EDIT!'' @ [10]
        @ str ''// Source: '' @ str ''foo.go'' @ [10]
        @ [10]
        @ str ''package '' @ str ''mocks'' @ [10]
        @ [10]
        @ str ''import ('' @ [10]
        @ [9] @ quoteMark @ str ''reflect'' @ quoteMark @ [10]
        @ concat (aliasImportLines quoteEscaped [] (fst (allocAliases asciiOnly ?im)) [9]
            pmOrder)
        @ [9] @ str ''. '' @ quoteEscaped (str ''fmt'') @ [10]
        @ str '')'' @ [10])" for pmOrder
    by (simp add: assembledText_def Generate_def Let_def steps_Cons steps_Nil importLoop
        loop_print_list g_out_def newGenerator_def ioPackage_def)
  have fmtq: "quoteEscaped (str ''fmt'') = quoteMark @ str ''fmt'' @ quoteMark"
    by (simp add: quoteEscaped_def str_def)
  have raw1: "assembledText (Generate asciiOnly quoteEscaped textType (str ''foo.go'')
        ioPackage (str ''mocks'') [] ?im ?o1 newGenerator) =
      Inr (concat (map (\<lambda>l. l @ [10])
       [str ''// Automatically generated by MockGen. DO NOT EDIT!'',
        str ''// Source: foo.go'',
        [],
        str ''package mocks'',
        [],
        str ''import ('',
        [9] @ quoteMark @ str ''reflect'' @ quoteMark,
        [9] @ str ''io '' @ quoteMark @ str ''io'' @ quoteMark,
        [9] @ str ''pegomock '' @ quoteMark @ str ''github.com/petergtz/pegomock'' @ quoteMark,
        [9] @ str ''. '' @ quoteMark @ str ''fmt'' @ quoteMark,
        str '')'']))"
    unfolding raw ioPackage_lines_escaped fmtq by (simp add: str_def)
  have first: "generateOutput sortImportLines asciiOnly quoteEscaped textType ioPackage
      (str ''foo.go'') (str ''mocks'') [] ?im ?o1 = Inr ?out"
    unfolding generateOutput_assembled [OF raw1] ioPackage_formatted by simp
  from generated_output_deterministic [OF fmt src pn i1 i2, of textType ioPackage "[]"] first
  have second: "generateOutput sortImportLines asciiOnly quoteEscaped textType ioPackage
      (str ''foo.go'') (str ''mocks'') [] ?im ?o2 = Inr ?out"
    by auto
  from fmt src pn i1 i2 first second show ?thesis by blast
qed

section \<open>The self package\<close>

text \<open>
  Claim C8, as the code has it.  If the self package is among the imports the package
  requires, it has an alias in the alias map, and the alias lines of the import block are
  made from the other entries of the map only: the line that would import the self package
  under its alias stands nowhere in the block, and, \<^verbatim>\<open>strconv.Quote\<close> being injective, neither
  does a line that imports it under any other identifier.  The test against the self
  package is made in the loop over the alias map and nowhere else: the fixed import of
  \<^verbatim>\<open>reflect\<close> and the dot imports of the model are printed as they are.
\<close>

theorem self_package_alias_not_rendered:
  assumes "iterates imOrder (insert importPath (Imports pkg))" and "self \<in> Imports pkg"
  shows "\<exists>a raw pre post.
     fst (allocAliases U imOrder) self = Some a
   \<and> assembledText (Generate U quote tstr source pkg pkgName self imOrder pmOrder newGenerator)
       = Inr raw
   \<and> raw = pre @ str ''import ('' @ [10]
       @ concat ([[9] @ quoteMark @ str ''reflect'' @ quoteMark @ [10]]
                 @ aliasImportLines quote self (fst (allocAliases U imOrder)) [9] pmOrder
                 @ map (\<lambda>path. [9] @ str ''. '' @ quote path @ [10]) (DotImports pkg))
       @ str '')'' @ [10] @ post
   \<and> aliasImportLines quote self (fst (allocAliases U imOrder)) [9] pmOrder =
       map (\<lambda>path. [9] @ the (fst (allocAliases U imOrder) path) @ str '' '' @ quote path @ [10])
         (filter (\<lambda>path. path \<noteq> self \<and> fst (allocAliases U imOrder) path \<noteq> None) pmOrder)
   \<and> [9] @ a @ str '' '' @ quote self @ [10]
       \<notin> set ([[9] @ quoteMark @ str ''reflect'' @ quoteMark @ [10]]
                @ aliasImportLines quote self (fst (allocAliases U imOrder)) [9] pmOrder
                @ map (\<lambda>path. [9] @ str ''. '' @ quote path @ [10]) (DotImports pkg))
   \<and> (inj quote \<longrightarrow>
        (\<forall>b. aliasName U b \<longrightarrow>
           [9] @ b @ str '' '' @ quote self @ [10]
           \<notin> set ([[9] @ quoteMark @ str ''reflect'' @ quoteMark @ [10]]
                    @ aliasImportLines quote self (fst (allocAliases U imOrder)) [9] pmOrder
                    @ map (\<lambda>path. [9] @ str ''. '' @ quote path @ [10]) (DotImports pkg))))"
proof -
  let ?pm = "fst (allocAliases U imOrder)"
  let ?lines = "aliasImportLines quote self ?pm [9] pmOrder"
  let ?block = "[[9] @ quoteMark @ str ''reflect'' @ quoteMark @ [10]] @ ?lines
                @ map (\<lambda>path. [9] @ str ''. '' @ quote path @ [10]) (DotImports pkg)"
  from assms have "self \<in> set imOrder" by (auto simp: iterates_def)
  then have "self \<in> dom ?pm" by (simp add: allocAliases_dom)
  then obtain a where a: "?pm self = Some a" by auto
  have an: "aliasName U a" by (rule allocAliases_aliasName [OF a])
  from Generate_new [of U quote tstr source pkg pkgName self imOrder]
  obtain post where
    emitted: "assembledText
        (Generate U quote tstr source pkg pkgName self imOrder pmOrder newGenerator) =
       Inr (str ''// Automatically generated by MockGen. DO NOT EDIT!'' @ [10]
            @ str ''// Source: '' @ source @ [10]
            @ [10]
            @ str ''package '' @ pkgName @ [10]
            @ [10]
            @ str ''import ('' @ [10]
            @ [9] @ quoteMark @ str ''reflect'' @ quoteMark @ [10]
            @ concat ?lines
            @ concat (map (\<lambda>path. [9] @ str ''. '' @ quote path @ [10]) (DotImports pkg))
            @ str '')'' @ [10]
            @ post)"
    by blast
  let ?pre = "str ''// Automatically generated by MockGen. DO NOT EDIT!'' @ [10]
            @ str ''// Source: '' @ source @ [10]
            @ [10]
            @ str ''package '' @ pkgName @ [10]
            @ [10]"
  let ?raw = "?pre @ str ''import ('' @ [10] @ concat ?block @ str '')'' @ [10] @ post"
  have emitted': "assembledText
        (Generate U quote tstr source pkg pkgName self imOrder pmOrder newGenerator) = Inr ?raw"
    unfolding emitted by simp
  have filt: "?lines =
       map (\<lambda>path. [9] @ the (?pm path) @ str '' '' @ quote path @ [10])
         (filter (\<lambda>path. path \<noteq> self \<and> ?pm path \<noteq> None) pmOrder)"
    using aliasImportLines_filter [of quote self ?pm "[9]" pmOrder] by simp
  have fixed: "[9] @ b @ str '' '' @ x @ [10] \<noteq> [9] @ quoteMark @ str ''reflect'' @ quoteMark @ [10]"
    and dots: "[9] @ b @ str '' '' @ x @ [10] \<noteq> [9] @ str ''. '' @ quote path @ [10]"
    if "aliasName U b" for b x path
  proof -
    from that have ne: "b \<noteq> []" by (simp add: aliasName_def)
    from aliasName_no_space [OF that] have "hd b \<noteq> 34" "hd b \<noteq> 46" by simp_all
    with ne show "[9] @ b @ str '' '' @ x @ [10]
        \<noteq> [9] @ quoteMark @ str ''reflect'' @ quoteMark @ [10]"
      and "[9] @ b @ str '' '' @ x @ [10] \<noteq> [9] @ str ''. '' @ quote path @ [10]"
      by (cases b; auto simp: quoteMark_def str_def)+
  qed
  have own: "[9] @ a @ str '' '' @ quote self @ [10] \<notin> set ?lines"
  proof
    assume "[9] @ a @ str '' '' @ quote self @ [10] \<in> set ?lines"
    from alias_line_of_other_path [OF an this]
    obtain p where p: "p \<noteq> self" "?pm p = Some a" by blast
    from allocAliases_inj [OF p(2) a] p(1) show False by simp
  qed
  have notin: "[9] @ a @ str '' '' @ quote self @ [10] \<notin> set ?block"
    using own fixed [OF an] dots [OF an] by auto
  have any: "[9] @ b @ str '' '' @ quote self @ [10] \<notin> set ?block"
    if q: "inj quote" and b: "aliasName U b" for b
  proof -
    have "[9] @ b @ str '' '' @ quote self @ [10] \<notin> set ?lines"
    proof
      assume "[9] @ b @ str '' '' @ quote self @ [10] \<in> set ?lines"
      from alias_line_of_other_path [OF b this]
      obtain p where p: "p \<noteq> self" "quote self = quote p" by blast
      from q p(2) have "self = p" by (simp add: inj_eq)
      with p(1) show False by simp
    qed
    with fixed [OF b] dots [OF b] show ?thesis by auto
  qed
  show ?thesis
    apply (rule exI [of _ a], rule exI [of _ ?raw], rule exI [of _ ?pre], rule exI [of _ post])
    using a emitted' filt notin any
    apply blast
    done
qed

text \<open>
  A package that dot-imports the package it is generated into, and a package generated
  into \<^verbatim>\<open>reflect\<close>: both times the self package is among the required imports, and the import
  block of the assembled text imports it.
\<close>

theorem self_package_rendered_counterexample:
  "str ''example.com/mocks'' \<in> Imports dotSelfPackage
   \<and> assembledText (Generate asciiOnly quotePlain textType (str ''foo.go'') dotSelfPackage
       (str ''mocks'') (str ''example.com/mocks'') [str ''example.com/mocks'', importPath]
       [str ''example.com/mocks'', importPath] newGenerator) =
     Inr (concat (map (\<lambda>l. l @ [10])
       [str ''// Automatically generated by MockGen. DO NOT EDIT!'',
        str ''// Source: foo.go'',
        [],
        str ''package mocks'',
        [],
        str ''import ('',
        [9] @ quoteMark @ str ''reflect'' @ quoteMark,
        [9] @ str ''pegomock '' @ quoteMark @ str ''github.com/petergtz/pegomock'' @ quoteMark,
        [9] @ str ''. '' @ quoteMark @ str ''example.com/mocks'' @ quoteMark,
        str '')'']))
   \<and> str ''reflect'' \<in> Imports reflectPackage
   \<and> assembledText (Generate asciiOnly quotePlain textType (str ''foo.go'') reflectPackage
       (str ''reflect'') (str ''reflect'') [str ''reflect'', importPath]
       [str ''reflect'', importPath] newGenerator) =
     Inr (concat (map (\<lambda>l. l @ [10])
       [str ''// Automatically generated by MockGen. DO NOT EDIT!'',
        str ''// Source: foo.go'',
        [],
        str ''package reflect'',
        [],
        str ''import ('',
        [9] @ quoteMark @ str ''reflect'' @ quoteMark,
        [9] @ str ''pegomock '' @ quoteMark @ str ''github.com/petergtz/pegomock'' @ quoteMark,
        str '')'']))"
proof -
  have l1: "aliasImportLines quotePlain (str ''example.com/mocks'')
       (fst (allocAliases asciiOnly [str ''example.com/mocks'', importPath])) [9]
       [str ''example.com/mocks'', importPath] =
     [[9] @ str ''pegomock '' @ quoteMark @ str ''github.com/petergtz/pegomock'' @ quoteMark
        @ [10]]"
    by code_simp
  have l2: "aliasImportLines quotePlain (str ''reflect'')
       (fst (allocAliases asciiOnly [str ''reflect'', importPath])) [9]
       [str ''reflect'', importPath] =
     [[9] @ str ''pegomock '' @ quoteMark @ str ''github.com/petergtz/pegomock'' @ quoteMark
        @ [10]]"
    by code_simp
  have g1: "assembledText (Generate asciiOnly quotePlain textType (str ''foo.go'')
        dotSelfPackage (str ''mocks'') (str ''example.com/mocks'')
        [str ''example.com/mocks'', importPath] pmOrder newGenerator) =
      Inr (str ''// Automatically generated by MockGen. DO NOT EDIT!'' @ [10]
        @ str ''// Source: '' @ str ''foo.go'' @ [10]
        @ [10]
        @ str ''package '' @ str ''mocks'' @ [10]
        @ [10]
        @ str ''import ('' @ [10]
        @ [9] @ quoteMark @ str ''reflect'' @ quoteMark @ [10]
        @ concat (aliasImportLines quotePlain (str ''example.com/mocks'')
            (fst (allocAliases asciiOnly [str ''example.com/mocks'', importPath])) [9]
            pmOrder)
        @ [9] @ str ''. '' @ quotePlain (str ''example.com/mocks'') @ [10]
        @ str '')'' @ [10])" for pmOrder
    by (simp add: assembledText_def Generate_def Let_def steps_Cons steps_Nil importLoop
        loop_print_list g_out_def newGenerator_def dotSelfPackage_def)
  have g2: "assembledText (Generate asciiOnly quotePlain textType (str ''foo.go'')
        reflectPackage (str ''reflect'') (str ''reflect'')
        [str ''reflect'', importPath] pmOrder newGenerator) =
      Inr (str ''// Automatically generated by MockGen. DO NOT EDIT!'' @ [10]
        @ str ''// Source: '' @ str ''foo.go'' @ [10]
        @ [10]
        @ str ''package '' @ str ''reflect'' @ [10]
        @ [10]
        @ str ''import ('' @ [10]
        @ [9] @ quoteMark @ str ''reflect'' @ quoteMark @ [10]
        @ concat (aliasImportLines quotePlain (str ''reflect'')
            (fst (allocAliases asciiOnly [str ''reflect'', importPath])) [9]
            pmOrder)
        @ str '')'' @ [10])" for pmOrder
    by (simp add: assembledText_def Generate_def Let_def steps_Cons steps_Nil importLoop
        loop_print_list g_out_def newGenerator_def reflectPackage_def)
  have m1: "str ''example.com/mocks'' \<in> Imports dotSelfPackage"
    by (simp add: dotSelfPackage_def)
  have m2: "str ''reflect'' \<in> Imports reflectPackage"
    by (simp add: reflectPackage_def)
  show ?thesis
    unfolding g1 g2 l1 l2 using m1 m2
    by (simp add: str_def quotePlain_def)
qed

theorem self_package_alias_not_rendered_witness:
  "iterates [str ''io'', str ''example.com/mocks'', importPath]
     (insert importPath (Imports mocksPackage))
   \<and> str ''example.com/mocks'' \<in> Imports mocksPackage
   \<and> inj quotePlain
   \<and> aliasName asciiOnly (str ''m'')
   \<and> fst (allocAliases asciiOnly [str ''io'', str ''example.com/mocks'', importPath])
       (str ''example.com/mocks'') = Some (str ''mocks'')
   \<and> aliasImportLines quotePlain (str ''example.com/mocks'')
       (fst (allocAliases asciiOnly [str ''io'', str ''example.com/mocks'', importPath])) [9]
       [str ''example.com/mocks'', importPath, str ''io''] =
     [[9] @ str ''pegomock '' @ quoteMark @ str ''github.com/petergtz/pegomock'' @ quoteMark
        @ [10],
      [9] @ str ''io '' @ quoteMark @ str ''io'' @ quoteMark @ [10]]
   \<and> [9] @ str ''mocks'' @ str '' '' @ quotePlain (str ''example.com/mocks'') @ [10]
       \<notin> set ([[9] @ quoteMark @ str ''reflect'' @ quoteMark @ [10]]
                @ aliasImportLines quotePlain (str ''example.com/mocks'')
                    (fst (allocAliases asciiOnly
                       [str ''io'', str ''example.com/mocks'', importPath])) [9]
                    [str ''example.com/mocks'', importPath, str ''io'']
                @ map (\<lambda>path. [9] @ str ''. '' @ quotePlain path @ [10])
                    (DotImports mocksPackage))
   \<and> [9] @ str ''m'' @ str '' '' @ quotePlain (str ''example.com/mocks'') @ [10]
       \<notin> set ([[9] @ quoteMark @ str ''reflect'' @ quoteMark @ [10]]
                @ aliasImportLines quotePlain (str ''example.com/mocks'')
                    (fst (allocAliases asciiOnly
                       [str ''io'', str ''example.com/mocks'', importPath])) [9]
                    [str ''example.com/mocks'', importPath, str ''io'']
                @ map (\<lambda>path. [9] @ str ''. '' @ quotePlain path @ [10])
                    (DotImports mocksPackage))"
proof -
  let ?self = "str ''example.com/mocks''"
  let ?im = "[str ''io'', str ''example.com/mocks'', importPath]"
  let ?pmOrder = "[str ''example.com/mocks'', importPath, str ''io'']"
  let ?block = "[[9] @ quoteMark @ str ''reflect'' @ quoteMark @ [10]]
                @ aliasImportLines quotePlain ?self (fst (allocAliases asciiOnly ?im)) [9]
                    ?pmOrder
                @ map (\<lambda>path. [9] @ str ''. '' @ quotePlain path @ [10])
                    (DotImports mocksPackage)"
  have wf: "iterates ?im (insert importPath (Imports mocksPackage))"
    by (auto simp: iterates_def mocksPackage_def str_def importPath_def)
  have mem: "?self \<in> Imports mocksPackage" by (simp add: mocksPackage_def)
  have m: "aliasName asciiOnly (str ''m'')"
    by (simp add: aliasName_def identChar_def IsLetter_def str_def)
  have look: "fst (allocAliases asciiOnly ?im) ?self = Some (str ''mocks'')" by code_simp
  have lines: "aliasImportLines quotePlain ?self (fst (allocAliases asciiOnly ?im)) [9] ?pmOrder =
     [[9] @ str ''pegomock '' @ quoteMark @ str ''github.com/petergtz/pegomock'' @ quoteMark
        @ [10],
      [9] @ str ''io '' @ quoteMark @ str ''io'' @ quoteMark @ [10]]"
    by code_simp
  note inst = self_package_alias_not_rendered [OF wf mem, where U = asciiOnly
      and quote = quotePlain and tstr = textType and source = "str ''foo.go''"
      and pkgName = "str ''mocks''" and pmOrder = ?pmOrder, unfolded look]
  from inst obtain a where a: "Some (str ''mocks'') = Some a"
    and notin: "[9] @ a @ str '' '' @ quotePlain ?self @ [10] \<notin> set ?block"
    and any: "inj quotePlain \<longrightarrow>
        (\<forall>b. aliasName asciiOnly b \<longrightarrow>
           [9] @ b @ str '' '' @ quotePlain ?self @ [10] \<notin> set ?block)"
    by blast
  from a have "a = str ''mocks''" by simp
  with notin have n1: "[9] @ str ''mocks'' @ str '' '' @ quotePlain ?self @ [10] \<notin> set ?block"
    by blast
  from any inj_quotePlain m
  have n2: "[9] @ str ''m'' @ str '' '' @ quotePlain ?self @ [10] \<notin> set ?block"
    by blast
  from wf mem inj_quotePlain m look lines n1 n2 show ?thesis by blast
qed
end
